theory Spec2Isabelle
  imports Main "HOL-Library.Log_Nat" "HOL-Library.AList" "HOL-Library.Sublist"
begin

section \<open>Python values used by the program\<close>

subsection \<open>Exceptions\<close>

text \<open>
  The exceptions that the modelled code can raise. A raise is a value of the model:
  every function that can raise returns either its result or the exception.
\<close>

datatype py_error =
    OverflowError
  | ZeroDivisionError
  | UnboundLocalError
  | ValidationError
  | JSONDecodeError
  | MarkupError
  | IndexError

subsection \<open>Floats\<close>

text \<open>
  A Python \<open>float\<close> is an IEEE 754 binary64 number. A finite float is represented by
  the rational number it denotes; the two zeros \<open>0.0\<close> and \<open>-0.0\<close>, which Python's
  \<open>==\<close> identifies, are both \<open>Fin 0\<close>. Every operation computes the exact rational
  result and rounds it to the nearest binary64 value, ties to the even significand
  (\<open>fl\<close>): 53 significant bits, least exponent \<open>-1074\<close>, overflow to an infinity from
  \<open>2 ^ 1024\<close> on.
\<close>

datatype pyfloat = Fin rat | PInf | NInf | NaN

definition pow2 :: "int \<Rightarrow> rat" where
  "pow2 e = (if 0 \<le> e then 2 ^ nat e else 1 / 2 ^ nat (- e))"

definition round_half_even :: "rat \<Rightarrow> int" where
  "round_half_even x =
     (let f = \<lfloor>x\<rfloor>; d = x - of_int f
      in if d < 1 / 2 then f
         else if 1 / 2 < d then f + 1
         else if even f then f else f + 1)"

text \<open>\<open>ilog2 x\<close> is the integer \<open>k\<close> with \<open>2 ^ k \<le> x < 2 ^ (k + 1)\<close>, for \<open>0 < x\<close>.\<close>

definition ilog2 :: "rat \<Rightarrow> int" where
  "ilog2 x =
     (let (a, b) = quotient_of x;
          k = bitlen a - bitlen b
      in if pow2 k \<le> x then k else k - 1)"

definition fl :: "rat \<Rightarrow> pyfloat" where
  "fl x =
     (if x = 0 then Fin 0
      else let e = max (ilog2 \<bar>x\<bar> - 52) (- 1074);
               y = of_int (round_half_even (\<bar>x\<bar> / pow2 e)) * pow2 e
           in if pow2 1024 \<le> y then (if 0 < x then PInf else NInf)
              else Fin (if 0 < x then y else - y))"

text \<open>
  \<open>float(n)\<close> for a Python \<open>int\<close>, as the arithmetic operators apply it to an
  \<open>int\<close> operand: correctly rounded, and \<open>OverflowError\<close> (int too large to convert to
  float) when the rounded value is not finite.
\<close>

definition float_of_int :: "int \<Rightarrow> py_error + pyfloat" where
  "float_of_int n =
     (case fl (of_int n) of Fin q \<Rightarrow> Inr (Fin q) | _ \<Rightarrow> Inl OverflowError)"

text \<open>\<open>x + y\<close> and \<open>x * y\<close> on floats never raise: an overflow gives an infinity.\<close>

fun fadd :: "pyfloat \<Rightarrow> pyfloat \<Rightarrow> pyfloat" where
  "fadd NaN _ = NaN"
| "fadd _ NaN = NaN"
| "fadd PInf NInf = NaN"
| "fadd NInf PInf = NaN"
| "fadd PInf _ = PInf"
| "fadd _ PInf = PInf"
| "fadd NInf _ = NInf"
| "fadd _ NInf = NInf"
| "fadd (Fin a) (Fin b) = fl (a + b)"

definition fneg :: "pyfloat \<Rightarrow> pyfloat" where
  "fneg x = (case x of Fin a \<Rightarrow> Fin (- a) | PInf \<Rightarrow> NInf | NInf \<Rightarrow> PInf | NaN \<Rightarrow> NaN)"

fun fmul :: "pyfloat \<Rightarrow> pyfloat \<Rightarrow> pyfloat" where
  "fmul NaN _ = NaN"
| "fmul _ NaN = NaN"
| "fmul (Fin a) (Fin b) = fl (a * b)"
| "fmul (Fin a) y = (if a = 0 then NaN else if 0 < a then y else fneg y)"
| "fmul x (Fin b) = (if b = 0 then NaN else if 0 < b then x else fneg x)"
| "fmul x y = (if x = y then PInf else NInf)"

text \<open>\<open>x / y\<close> on floats raises \<open>ZeroDivisionError\<close> for a zero divisor.\<close>

fun fdiv :: "pyfloat \<Rightarrow> pyfloat \<Rightarrow> py_error + pyfloat" where
  "fdiv x (Fin b) =
     (if b = 0 then Inl ZeroDivisionError
      else case x of
             Fin a \<Rightarrow> Inr (fl (a / b))
           | NaN \<Rightarrow> Inr NaN
           | _ \<Rightarrow> Inr (if 0 < b then x else fneg x))"
| "fdiv NaN _ = Inr NaN"
| "fdiv _ NaN = Inr NaN"
| "fdiv (Fin a) _ = Inr (Fin 0)"
| "fdiv _ _ = Inr NaN"

text \<open>
  \<open>round(x, 2)\<close> on a float: the exact value of \<open>x\<close> is rounded half-even to two
  decimal places and the decimal result converted back to the nearest float;
  infinities and NaN are returned as they are.
\<close>

definition round2 :: "pyfloat \<Rightarrow> pyfloat" where
  "round2 x =
     (case x of
        Fin q \<Rightarrow> fl (of_int (round_half_even (q * 100)) / 100)
      | _ \<Rightarrow> x)"

subsection \<open>Decimal rendering of a natural number\<close>

text \<open>\<open>str(n)\<close>, as the f-string \<open>f"INV-{n}"\<close> renders a non-negative \<open>int\<close>.\<close>

definition digit_char :: "nat \<Rightarrow> char" where
  "digit_char d = ''0123456789'' ! d"

fun py_str :: "nat \<Rightarrow> string" where
  "py_str n = (if n < 10 then [digit_char n] else py_str (n div 10) @ [digit_char (n mod 10)])"

declare py_str.simps [simp del]

section \<open>The in-memory store (\<open>DB\<close> of \<open>vanilla_sgr/schema_demo.py\<close>)\<close>

text \<open>
  The store is a dictionary with the four keys \<open>rules\<close>, \<open>invoices\<close>, \<open>emails\<close> and
  \<open>products\<close>. Each entity is a dictionary with fixed keys and becomes a record. The
  dictionaries \<open>invoices\<close> and \<open>products\<close> are association lists in insertion order, as
  Python dictionaries are: \<open>d.get k\<close> is \<open>map_of d k\<close>, \<open>d[k] = v\<close> is
  \<open>AList.update k v d\<close> (in place for a present key, at the end for a new one),
  \<open>d.items()\<close> is the list itself and \<open>len(d)\<close> its length.
\<close>

record rule =
  r_email :: string
  r_rule :: string

record email =
  em_to :: string
  em_subject :: string
  em_message :: string

record invoice =
  inv_id :: string
  inv_email :: string
  inv_file :: string
  inv_skus :: "string list"
  inv_discount_amount :: pyfloat
  inv_discount_percent :: int
  inv_total :: pyfloat
  inv_void :: bool

record product =
  p_name :: string
  p_price :: int

record db =
  db_rules :: "rule list"
  db_invoices :: "(string \<times> invoice) list"
  db_emails :: "email list"
  db_products :: "(string \<times> product) list"

definition DB :: db where
  "DB = \<lparr>db_rules = [], db_invoices = [], db_emails = [],
          db_products =
            [(''SKU-205'', \<lparr>p_name = ''AGI course 101 Personal'', p_price = 258\<rparr>),
             (''SKU-210'', \<lparr>p_name = ''AGI 101 Course Team'', p_price = 1290\<rparr>),
             (''SKU-220'', \<lparr>p_name = ''Building AGI - Online Excercises'', p_price = 315\<rparr>)]\<rparr>"

section \<open>Tool calls\<close>

text \<open>
  The command classes. The \<open>tool\<close> literal of each class is the constructor. The
  arguments are the remaining fields in the order of the class body:
  \<open>SendEmail subject message files recipient_email\<close>, \<open>GetCustomerData email\<close>,
  \<open>IssueInvoice email skus discount_percent\<close>, \<open>CancelInvoice invoice_id reason\<close>,
  \<open>CreateRule email rule\<close>, \<open>ReportTaskCompletion completed_steps_laconic code\<close>.
\<close>

datatype cmd =
    SendEmail string string "string list" string
  | GetCustomerData string
  | IssueInvoice string "string list" int
  | CancelInvoice string string
  | CreateRule string string
  | ReportTaskCompletion "string list" string

text \<open>What \<open>dispatch\<close> returns: one of the dictionaries, a message string or \<open>None\<close>.\<close>

record customer_data =
  cd_rules :: "rule list"
  cd_invoices :: "(string \<times> invoice) list"
  cd_emails :: "email list"

datatype result =
    REmail email
  | RRule rule
  | RCustomerData customer_data
  | RInvoice invoice
  | RStr string
  | RNone

datatype outcome = Raised py_error | Returned result

section \<open>\<open>dispatch\<close> of \<open>vanilla_sgr/schema_demo.py\<close>\<close>

text \<open>
  The loop of lines 112--117, started with \<open>total = 0.0\<close>: it leaves the function early
  (\<open>Inl\<close>) by returning the message for the first sku that the catalog lacks, or by
  the \<open>OverflowError\<close> of \<open>total += product["price"]\<close> for a price too large for a
  float; otherwise it ends with the accumulated total (\<open>Inr\<close>).
\<close>

fun price_loop :: "(string \<times> product) list \<Rightarrow> pyfloat \<Rightarrow> string list \<Rightarrow> outcome + pyfloat" where
  "price_loop ps total' [] = Inr total'"
| "price_loop ps total' (sku # skus) =
     (case map_of ps sku of
        None \<Rightarrow> Inl (Returned (RStr (''Product '' @ sku @ '' not found'')))
      | Some product \<Rightarrow>
          (case float_of_int (p_price product) of
             Inl e \<Rightarrow> Inl (Raised e)
           | Inr p \<Rightarrow> price_loop ps (fadd total' p) skus))"

text \<open>
  \<open>dispatch\<close> reads and updates the global \<open>DB\<close>: the model takes the store and returns
  the outcome with the store after the call.
\<close>

fun dispatch :: "db \<Rightarrow> cmd \<Rightarrow> outcome \<times> db" where
  "dispatch s (SendEmail subject message files recipient_email) =
     (let email = \<lparr>em_to = recipient_email, em_subject = subject, em_message = message\<rparr>
      in (Returned (REmail email), s\<lparr>db_emails := db_emails s @ [email]\<rparr>))"
| "dispatch s (CreateRule email rule) =
     (let rule = \<lparr>r_email = email, r_rule = rule\<rparr>
      in (Returned (RRule rule), s\<lparr>db_rules := db_rules s @ [rule]\<rparr>))"
| "dispatch s (GetCustomerData addr) =
     (Returned (RCustomerData
        \<lparr>cd_rules = filter (\<lambda>r. r_email r = addr) (db_rules s),
         cd_invoices = filter (\<lambda>inv. inv_email (snd inv) = addr) (db_invoices s),
         cd_emails = filter (\<lambda>em. em_to em = addr) (db_emails s)\<rparr>), s)"
| "dispatch s (IssueInvoice email skus discount_percent) =
     (case price_loop (db_products s) (Fin 0) skus of
        Inl early \<Rightarrow> (early, s)
      | Inr total' \<Rightarrow>
          (case float_of_int discount_percent of
             Inl e \<Rightarrow> (Raised e, s)
           | Inr percent \<Rightarrow>
               (case fdiv (fmul (fmul total' (Fin 1)) percent) (Fin 100) of
                  Inl e \<Rightarrow> (Raised e, s)
                | Inr q \<Rightarrow>
                    (let discount = round2 q;
                         invoice_id = ''INV-'' @ py_str (length (db_invoices s) + 1);
                         invoice =
                           \<lparr>inv_id = invoice_id, inv_email = email,
                            inv_file = ''/invoices'' @ invoice_id @ ''.pdf'',
                            inv_skus = skus, inv_discount_amount = discount,
                            inv_discount_percent = discount_percent,
                            inv_total = total', inv_void = False\<rparr>
                     in (Returned (RInvoice invoice),
                         s\<lparr>db_invoices := AList.update invoice_id invoice (db_invoices s)\<rparr>)))))"
| "dispatch s (CancelInvoice invoice_id reason) =
     (case map_of (db_invoices s) invoice_id of
        None \<Rightarrow> (Returned (RStr (''Invoice '' @ invoice_id @ '' not found'')), s)
      | Some invoice \<Rightarrow>
          (let invoice' = invoice\<lparr>inv_void := True\<rparr>
           in (Returned (RInvoice invoice'),
               s\<lparr>db_invoices := AList.update invoice_id invoice' (db_invoices s)\<rparr>)))"
| "dispatch s (ReportTaskCompletion completed_steps_laconic code) = (Returned RNone, s)"

section \<open>\<open>dispatch\<close> of \<open>schema_demo.py\<close>\<close>

text \<open>
  The file \<open>schema_demo.py\<close> at the top of the repository declares the same store, the
  same command classes and a \<open>dispatch\<close> with the same text, except for line 107:
  \<open>discount = round(total * 1.0 * discount / 100.0, 2)\<close>. The name \<open>discount\<close> is
  assigned in the function, hence local, and is read there before any assignment:
  once the loop over the skus has ended, \<open>total * 1.0\<close> is computed and reading
  \<open>discount\<close> raises \<open>UnboundLocalError\<close>.
\<close>

fun dispatch_top :: "db \<Rightarrow> cmd \<Rightarrow> outcome \<times> db" where
  "dispatch_top s (SendEmail subject message files recipient_email) =
     (let email = \<lparr>em_to = recipient_email, em_subject = subject, em_message = message\<rparr>
      in (Returned (REmail email), s\<lparr>db_emails := db_emails s @ [email]\<rparr>))"
| "dispatch_top s (CreateRule email rule) =
     (let rule = \<lparr>r_email = email, r_rule = rule\<rparr>
      in (Returned (RRule rule), s\<lparr>db_rules := db_rules s @ [rule]\<rparr>))"
| "dispatch_top s (GetCustomerData addr) =
     (Returned (RCustomerData
        \<lparr>cd_rules = filter (\<lambda>r. r_email r = addr) (db_rules s),
         cd_invoices = filter (\<lambda>inv. inv_email (snd inv) = addr) (db_invoices s),
         cd_emails = filter (\<lambda>em. em_to em = addr) (db_emails s)\<rparr>), s)"
| "dispatch_top s (IssueInvoice email skus discount_percent) =
     (case price_loop (db_products s) (Fin 0) skus of
        Inl early \<Rightarrow> (early, s)
      | Inr total' \<Rightarrow> (Raised UnboundLocalError, s))"
| "dispatch_top s (CancelInvoice invoice_id reason) =
     (case map_of (db_invoices s) invoice_id of
        None \<Rightarrow> (Returned (RStr (''Invoice '' @ invoice_id @ '' not found'')), s)
      | Some invoice \<Rightarrow>
          (let invoice' = invoice\<lparr>inv_void := True\<rparr>
           in (Returned (RInvoice invoice'),
               s\<lparr>db_invoices := AList.update invoice_id invoice' (db_invoices s)\<rparr>)))"
| "dispatch_top s (ReportTaskCompletion completed_steps_laconic code) = (Returned RNone, s)"

section \<open>Decoding a decision (\<open>NextStep\<close>)\<close>

text \<open>
  \<open>NextStep.model_validate\<close> is applied to the dictionary that \<open>json.loads\<close> made of
  the oracle's answer. The candidate is modelled with its fields already of the JSON
  types that the classes name; validation checks what the classes declare beyond the
  types: \<open>Le(50)\<close> on \<open>discount_percent\<close>, the two literals of \<open>code\<close>, and
  \<open>MinLen(1)\<close>, \<open>MaxLen(5)\<close> on \<open>plan_remaining_steps_brief\<close>. A violated constraint
  raises \<open>ValidationError\<close>.
\<close>

record next_step =
  ns_current_task :: string
  ns_plan_remaining_steps_brief :: "string list"
  ns_task_completed :: bool
  ns_function :: cmd

fun validate_function :: "cmd \<Rightarrow> py_error + cmd" where
  "validate_function (IssueInvoice email skus discount_percent) =
     (if discount_percent \<le> 50 then Inr (IssueInvoice email skus discount_percent)
      else Inl ValidationError)"
| "validate_function (ReportTaskCompletion completed_steps_laconic code) =
     (if code = ''completed'' \<or> code = ''failed''
      then Inr (ReportTaskCompletion completed_steps_laconic code)
      else Inl ValidationError)"
| "validate_function c = Inr c"

definition model_validate :: "next_step \<Rightarrow> py_error + next_step" where
  "model_validate job_dict =
     (if 1 \<le> length (ns_plan_remaining_steps_brief job_dict)
         \<and> length (ns_plan_remaining_steps_brief job_dict) \<le> 5
      then (case validate_function (ns_function job_dict) of
              Inl e \<Rightarrow> Inl e
            | Inr f \<Rightarrow> Inr (job_dict\<lparr>ns_function := f\<rparr>))
      else Inl ValidationError)"

section \<open>\<open>execute_tasks\<close>\<close>

text \<open>
  The conversation log. The content of a \<open>tool\<close> message is the text of the dispatch
  result (the string itself, or \<open>json.dumps\<close> of the dictionary) and the arguments of a
  tool call are \<open>model_dump_json\<close> of the command: the model keeps the result and the
  command themselves. \<open>Assistant step name f\<close> is the \<open>assistant\<close> message with the
  one tool call of id \<open>step\<close>, and \<open>Tool result step\<close> the \<open>tool\<close> message.
\<close>

datatype message =
    System string
  | User string
  | Assistant string string cmd
  | Tool result string

fun tool :: "cmd \<Rightarrow> string" where
  "tool (SendEmail _ _ _ _) = ''send_email''"
| "tool (GetCustomerData _) = ''get_customer_data''"
| "tool (IssueInvoice _ _ _) = ''issue_invoice''"
| "tool (CancelInvoice _ _) = ''cancel_invoice''"
| "tool (CreateRule _ _) = ''remember''"
| "tool (ReportTaskCompletion _ _) = ''report_completion''"

definition TEST_TASKS :: "string list" where
  "TEST_TASKS =
     [''Rule: address sama@openai.com as 'The SAMA', always give him 5% discount'',
      ''Rule for elon@x.com. Email his invoices to finances@x.com'',
      ''sama@openai.com wants one of each product. Email him the invoice'',
      ''elon@x.com wants 2x the way sama@openai.com got. Send the invoice'',
      ''redo last elon@x.com invoice: use 3x discount of sama@openai.com'']"

text \<open>
  The decision oracle stands for \<open>model_provider.chat_completion\<close> followed by
  \<open>json.loads\<close>: from the log it gives the candidate dictionary, or the exception of
  the provider or of the JSON parser. The system prompt and the model name are
  parameters.
\<close>

type_synonym decision_oracle = "message list \<Rightarrow> py_error + next_step"

text \<open>
  \<open>print\<close> is \<open>Console.print\<close> of the rich library. What is printed is one of:
  \<open>Text t\<close> for \<open>print(t)\<close> with a string, which rich reads as markup;
  \<open>PanelItem task title\<close> for \<open>print(Panel(task, title=title, ...))\<close>;
  \<open>RuleItem title\<close> for \<open>print(Rule(title))\<close>, the title empty for \<open>Rule()\<close>;
  \<open>PlanItem plan f\<close> for \<open>print(job.plan_remaining_steps_brief[0], f"\n  {job.function}")\<close>.
  The console is a parameter: for an item it either prints it (\<open>None\<close>) or raises, as
  rich does with \<open>MarkupError\<close> on a text whose brackets are not well-formed markup.
  The items printed so far are kept in a list.
\<close>

datatype console_item =
    Text string
  | PanelItem string string
  | RuleItem string
  | PlanItem string cmd

type_synonym console = "console_item \<Rightarrow> py_error option"

text \<open>Printing some items one after the other, up to the first that raises.\<close>

fun print_all :: "console \<Rightarrow> console_item list \<Rightarrow> console_item list \<Rightarrow> py_error option \<times> console_item list" where
  "print_all console_print out [] = (None, out)"
| "print_all console_print out (item # items) =
     (case console_print item of
        Some e \<Rightarrow> (Some e, out)
      | None \<Rightarrow> print_all console_print (out @ [item]) items)"

fun is_report :: "cmd \<Rightarrow> bool" where
  "is_report (ReportTaskCompletion _ _) = True"
| "is_report _ = False"

text \<open>What lines 243--247 print for a \<open>ReportTaskCompletion\<close>, before the \<open>break\<close>.\<close>

fun summary_items :: "cmd \<Rightarrow> console_item list" where
  "summary_items (ReportTaskCompletion completed_steps_laconic code) =
     [Text (''[blue]agent '' @ code @ ''[/blue].''), RuleItem ''Summary'']
     @ map (\<lambda>s. Text (''- '' @ s)) completed_steps_laconic
     @ [RuleItem []]"
| "summary_items _ = []"

text \<open>
  The loop \<open>for i in range(20)\<close> of one task, on the log, the store and the items
  printed so far. It gives the exception that left it (\<open>Some\<close>), or \<open>None\<close> when it
  ended, by \<open>break\<close> after the summary of a \<open>ReportTaskCompletion\<close> or with the range
  exhausted: in both cases \<open>execute_tasks\<close> goes on to the next task, and the program
  keeps no other trace of how the loop ended than what it printed.
\<close>

fun run_steps :: "console \<Rightarrow> string \<Rightarrow> decision_oracle \<Rightarrow> nat list \<Rightarrow> message list \<Rightarrow> db \<Rightarrow> console_item list
    \<Rightarrow> py_error option \<times> message list \<times> db \<times> console_item list" where
  "run_steps console_print model_name completion [] log' s out = (None, log', s, out)"
| "run_steps console_print model_name completion (i # rng) log' s out =
     (let step = ''step_'' @ py_str (i + 1)
      in case print_all console_print out [Text (''Planning '' @ step @ ''... ''), Text model_name] of
           (Some e, out1) \<Rightarrow> (Some e, log', s, out1)
         | (None, out1) \<Rightarrow>
             (case completion log' of
                Inl e \<Rightarrow> (Some e, log', s, out1)
              | Inr job_dict \<Rightarrow>
                  (case model_validate job_dict of
                     Inl e \<Rightarrow> (Some e, log', s, out1)
                   | Inr job \<Rightarrow>
                       if is_report (ns_function job)
                       then (case print_all console_print out1 (summary_items (ns_function job)) of
                               (r, out2) \<Rightarrow> (r, log', s, out2))
                       else
                         (case ns_plan_remaining_steps_brief job of
                            [] \<Rightarrow> (Some IndexError, log', s, out1)
                          | plan # plans \<Rightarrow>
                              (case print_all console_print out1 [PlanItem plan (ns_function job)] of
                                 (Some e, out2) \<Rightarrow> (Some e, log', s, out2)
                               | (None, out2) \<Rightarrow>
                                   (let log1 = log' @ [Assistant step (tool (ns_function job)) (ns_function job)]
                                    in case dispatch s (ns_function job) of
                                         (Raised e, s') \<Rightarrow> (Some e, log1, s', out2)
                                       | (Returned result, s') \<Rightarrow>
                                           run_steps console_print model_name completion rng
                                             (log1 @ [Tool result step]) s' out2))))))"

text \<open>
  The body of the loop over the tasks, for one task: the two prints of lines 220--221,
  the fresh log and the loop of the steps.
\<close>

definition run_task :: "console \<Rightarrow> string \<Rightarrow> decision_oracle \<Rightarrow> string \<Rightarrow> db \<Rightarrow> console_item list \<Rightarrow> string
    \<Rightarrow> py_error option \<times> message list \<times> db \<times> console_item list" where
  "run_task console_print model_name completion system_prompt s out task =
     (case print_all console_print out
             [Text [CHR 0x0A, CHR 0x0A], PanelItem task ''Launch agent with task''] of
        (Some e, out1) \<Rightarrow> (Some e, [], s, out1)
      | (None, out1) \<Rightarrow>
          run_steps console_print model_name completion [0..<20]
            [System system_prompt, User task] s out1)"

text \<open>The tasks run one after the other on the same store; an exception ends the program.\<close>

fun run_tasks :: "console \<Rightarrow> string \<Rightarrow> decision_oracle \<Rightarrow> string \<Rightarrow> db \<Rightarrow> console_item list \<Rightarrow> string list
    \<Rightarrow> py_error option \<times> db \<times> console_item list" where
  "run_tasks console_print model_name completion system_prompt s out [] = (None, s, out)"
| "run_tasks console_print model_name completion system_prompt s out (task # tasks) =
     (case run_task console_print model_name completion system_prompt s out task of
        (Some e, log', s', out') \<Rightarrow> (Some e, s', out')
      | (None, log', s', out') \<Rightarrow>
          run_tasks console_print model_name completion system_prompt s' out' tasks)"

definition execute_tasks :: "console \<Rightarrow> string \<Rightarrow> decision_oracle \<Rightarrow> string \<Rightarrow> py_error option \<times> db \<times> console_item list" where
  "execute_tasks console_print model_name completion system_prompt =
     run_tasks console_print model_name completion system_prompt DB [] TEST_TASKS"

text \<open>The number of dispatches that a log records: one \<open>tool\<close> message for each.\<close>

fun is_tool :: "message \<Rightarrow> bool" where
  "is_tool (Tool _ _) = True"
| "is_tool _ = False"

definition dispatched :: "message list \<Rightarrow> nat" where
  "dispatched log' = length (filter is_tool log')"

text \<open>
  The rules \<open>Rule("Summary")\<close> and \<open>Rule()\<close> are printed by the summary of a
  \<open>ReportTaskCompletion\<close> and nowhere else.
\<close>

fun is_rule :: "console_item \<Rightarrow> bool" where
  "is_rule (RuleItem _) = True"
| "is_rule _ = False"

section \<open>\<open>ensure_no_additional_properties\<close> of \<open>common/models.py\<close>\<close>

text \<open>
  The JSON schema that \<open>model_json_schema\<close> returns: a tree of dictionaries, lists and
  scalars. The function updates the dictionaries in place and returns nothing; the
  model returns the tree after the call.
\<close>

datatype json =
    JNull
  | JBool bool
  | JInt int
  | JFloat pyfloat
  | JStr string
  | JList "json list"
  | JDict "(string \<times> json) list"

fun is_dict :: "json \<Rightarrow> bool" where
  "is_dict (JDict _) = True"
| "is_dict _ = False"

fun is_list :: "json \<Rightarrow> bool" where
  "is_list (JList _) = True"
| "is_list _ = False"

function (sequential) ensure_no_additional_properties :: "json \<Rightarrow> json" where
  "ensure_no_additional_properties (JDict schema_dict) =
     (let d = (if map_of schema_dict ''type'' = Some (JStr ''object'')
                  \<and> map_of schema_dict ''additionalProperties'' = None
               then AList.update ''additionalProperties'' (JBool False) schema_dict
               else schema_dict)
      in JDict (map (\<lambda>(key, val).
                  (key,
                   if is_dict val then ensure_no_additional_properties val
                   else if is_list val then
                     (case val of JList items \<Rightarrow>
                        JList (map (\<lambda>item. if is_dict item
                                            then ensure_no_additional_properties item
                                            else item) items))
                   else val)) d))"
| "ensure_no_additional_properties schema_dict = schema_dict"
  by pat_completeness auto
termination
proof -
  have new_entry: "(k, v) = (a, b) \<or> (k, v) \<in> set d"
    if "(k, v) \<in> set (AList.update a b d)" for k a :: string and v b :: json and d
    using that by (induction d) (auto split: if_splits)
  have entry: "size b < Suc (size_list (size_prod (\<lambda>x. 0) size) d)"
    if "(a, b) \<in> set d" for a :: string and b :: json and d
    using size_list_estimation'[OF that, of "size b" "size_prod (\<lambda>x. 0) size"] by simp
  have item: "size x < Suc (size_list (size_prod (\<lambda>x. 0) size) d)"
    if "(a, JList xs) \<in> set d" "x \<in> set xs" for a :: string and x :: json and xs d
    using entry[OF that(1)] size_list_estimation'[OF that(2), of "size x" size] by simp
  show ?thesis
    apply (relation "measure size")
      apply simp
     apply (auto split: if_splits dest!: new_entry simp: entry item)
    done
qed

section \<open>Notions used in the statements\<close>

text \<open>The unit price that the catalog gives for a sku (\<open>0\<close> for a sku that it lacks).\<close>

definition unit_price :: "(string \<times> product) list \<Rightarrow> string \<Rightarrow> int" where
  "unit_price ps sku = (case map_of ps sku of Some product \<Rightarrow> p_price product | None \<Rightarrow> 0)"

text \<open>A catalog whose prices all convert to a float.\<close>

definition prices_convert :: "(string \<times> product) list \<Rightarrow> bool" where
  "prices_convert ps = list_all (\<lambda>(sku, product). float_of_int (p_price product) \<noteq> Inl OverflowError) ps"

text \<open>
  The id of the \<open>k\<close>-th invoice, and a store whose invoice ids are \<open>INV-1\<close>, \<open>INV-2\<close>,
  ... in the order of the dictionary: what \<open>dispatch\<close> makes of a store that starts
  with no invoice.
\<close>

definition invoice_name :: "nat \<Rightarrow> string" where
  "invoice_name k = ''INV-'' @ py_str k"

definition ids_in_sequence :: "db \<Rightarrow> bool" where
  "ids_in_sequence s =
     (map fst (db_invoices s) = map invoice_name [1..<Suc (length (db_invoices s))])"

text \<open>
  A sequence of commands dispatched one after the other on the store, with the outcome
  of each; a call that raises leaves the store as it is.
\<close>

fun dispatch_all :: "db \<Rightarrow> cmd list \<Rightarrow> outcome list \<times> db" where
  "dispatch_all s [] = ([], s)"
| "dispatch_all s (c # cs) =
     (case dispatch s c of
        (out, s') \<Rightarrow> (case dispatch_all s' cs of (outs, s'') \<Rightarrow> (out # outs, s'')))"

text \<open>The ids of the invoices that the \<open>IssueInvoice\<close> commands of a sequence returned.\<close>

fun created_ids :: "cmd list \<Rightarrow> outcome list \<Rightarrow> string list" where
  "created_ids (IssueInvoice email skus discount_percent # cs) (Returned (RInvoice invoice) # outs) =
     inv_id invoice # created_ids cs outs"
| "created_ids (c # cs) (out # outs) = created_ids cs outs"
| "created_ids _ _ = []"

text \<open>A store with two invoices, two rules and two emails, for the examples.\<close>

definition two_invoices :: db where
  "two_invoices = DB\<lparr>db_invoices :=
     [(''INV-1'', \<lparr>inv_id = ''INV-1'', inv_email = ''sama@openai.com'',
         inv_file = ''/invoicesINV-1.pdf'', inv_skus = [''SKU-205''],
         inv_discount_amount = Fin 0, inv_discount_percent = 0,
         inv_total = Fin 258, inv_void = False\<rparr>),
      (''INV-2'', \<lparr>inv_id = ''INV-2'', inv_email = ''Sama@openai.com'',
         inv_file = ''/invoicesINV-2.pdf'', inv_skus = [''SKU-210''],
         inv_discount_amount = Fin 0, inv_discount_percent = 0,
         inv_total = Fin 1290, inv_void = False\<rparr>)],
     db_rules := [\<lparr>r_email = ''sama@openai.com'', r_rule = ''5% discount''\<rparr>,
                  \<lparr>r_email = ''elon@x.com'', r_rule = ''invoices to finances@x.com''\<rparr>],
     db_emails := [\<lparr>em_to = ''SAMA@openai.com'', em_subject = ''Invoice'', em_message = ''Attached''\<rparr>,
                   \<lparr>em_to = ''sama@openai.com'', em_subject = ''Invoice'', em_message = ''Attached''\<rparr>]\<rparr>"

text \<open>A candidate decision that issues an invoice, for the examples.\<close>

definition candidate :: "int \<Rightarrow> next_step" where
  "candidate discount_percent =
     \<lparr>ns_current_task = ''invoice for sama@openai.com'',
      ns_plan_remaining_steps_brief = [''issue the invoice'', ''email the invoice''],
      ns_task_completed = False,
      ns_function = IssueInvoice ''sama@openai.com'' [''SKU-205''] discount_percent\<rparr>"

text \<open>
  An oracle that issues an invoice at every step, one whose every answer fails
  validation, and a console that prints everything.
\<close>

definition always_issues :: "message list \<Rightarrow> py_error + next_step" where
  "always_issues log' = Inr (candidate 10)"

definition always_invalid :: "message list \<Rightarrow> py_error + next_step" where
  "always_invalid log' = Inr (candidate 51)"

definition plain_console :: "console_item \<Rightarrow> py_error option" where
  "plain_console item = None"

text \<open>What \<open>ensure_no_additional_properties\<close> does to a value of a dictionary.\<close>

definition visit :: "json \<Rightarrow> json" where
  "visit val =
     (if is_dict val then ensure_no_additional_properties val
      else if is_list val then
        (case val of JList items \<Rightarrow>
           JList (map (\<lambda>item. if is_dict item then ensure_no_additional_properties item
                               else item) items))
      else val)"

text \<open>
  The schema transform as the specification words it: \<open>additionalProperties\<close> is set to
  false on every dictionary of type \<open>object\<close> that lacks the key, at any depth, through
  dictionaries and lists alike.
\<close>

fun inject_everywhere :: "json \<Rightarrow> json" where
  "inject_everywhere (JDict d) =
     JDict (map (\<lambda>e. (fst e, inject_everywhere (snd e))) d
            @ (if map_of d ''type'' = Some (JStr ''object'')
                  \<and> map_of d ''additionalProperties'' = None
               then [(''additionalProperties'', JBool False)] else []))"
| "inject_everywhere (JList xs) = JList (map inject_everywhere xs)"
| "inject_everywhere x = x"

text \<open>
  The transform on the part of the tree that is reached through the values of
  dictionaries and through the lists that are such values: a list that is an item of
  a list (\<open>in_list\<close>) is left as it is.
\<close>

fun inject_reached :: "bool \<Rightarrow> json \<Rightarrow> json" where
  "inject_reached in_list (JDict d) =
     JDict (map (\<lambda>e. (fst e, inject_reached False (snd e))) d
            @ (if map_of d ''type'' = Some (JStr ''object'')
                  \<and> map_of d ''additionalProperties'' = None
               then [(''additionalProperties'', JBool False)] else []))"
| "inject_reached in_list (JList xs) =
     (if in_list then JList xs else JList (map (inject_reached True) xs))"
| "inject_reached in_list x = x"

text \<open>A tree in which no list is an item of a list.\<close>

fun lists_hold_no_lists :: "json \<Rightarrow> bool" where
  "lists_hold_no_lists (JDict d) = list_all (\<lambda>e. lists_hold_no_lists (snd e)) d"
| "lists_hold_no_lists (JList xs) = list_all (\<lambda>x. \<not> is_list x \<and> lists_hold_no_lists x) xs"
| "lists_hold_no_lists x = True"

text \<open>A schema of the kind \<open>model_json_schema\<close> returns, for the examples.\<close>

definition next_step_schema :: json where
  "next_step_schema =
     JDict
       [(''$defs'', JDict
          [(''IssueInvoice'', JDict
              [(''properties'', JDict
                  [(''tool'', JDict [(''const'', JStr ''issue_invoice''), (''type'', JStr ''string'')]),
                   (''skus'', JDict [(''items'', JDict [(''type'', JStr ''string'')]),
                                     (''type'', JStr ''array'')]),
                   (''discount_percent'', JDict [(''maximum'', JInt 50), (''type'', JStr ''integer'')])]),
               (''required'', JList [JStr ''tool'', JStr ''skus'', JStr ''discount_percent'']),
               (''type'', JStr ''object'')]),
           (''Open'', JDict [(''additionalProperties'', JBool True), (''type'', JStr ''object'')])]),
        (''properties'', JDict
          [(''function'', JDict
              [(''anyOf'', JList [JDict [(''$ref'', JStr ''#/$defs/IssueInvoice'')],
                                  JDict [(''type'', JStr ''object'')]])])]),
        (''type'', JStr ''object'')]"

text \<open>A schema with a dictionary of type \<open>object\<close> in a list inside a list.\<close>

definition nested_list_schema :: json where
  "nested_list_schema =
     JDict [(''type'', JStr ''object''),
            (''additionalProperties'', JBool False),
            (''examples'', JList [JList [JDict [(''type'', JStr ''object'')]]])]"

text \<open>A schema with a default value that is a list of lists.\<close>

definition matrix_default_schema :: json where
  "matrix_default_schema =
     JDict [(''default'', JList [JList [JInt 1, JInt 2]]),
            (''items'', JDict [(''type'', JStr ''object'')]),
            (''type'', JStr ''object'')]"

section \<open>Properties of the float model\<close>

declare fadd.simps [simp del] fmul.simps [simp del] fdiv.simps [simp del]

lemma round_half_even_of_int: "round_half_even (of_int n) = n"
  by (simp add: round_half_even_def)

lemma ilog2_of_int_le:
  assumes "0 < m" "m < 2 ^ 53"
  shows "ilog2 (of_int m) \<le> 52"
proof -
  have "bitlen m \<le> 53"
    using assms by (simp add: bitlen_le_iff_power)
  moreover have "bitlen 1 = 1"
    by (simp add: bitlen_alt_def)
  ultimately show ?thesis
    by (simp add: ilog2_def Let_def)
qed

lemma fl_of_nat_exact:
  assumes "0 < m" "m < 2 ^ 53"
  shows "fl (of_int m) = Fin (of_int m)"
proof -
  define e where "e = max (ilog2 \<bar>of_int m\<bar> - 52) (- 1074)"
  have abs: "\<bar>of_int m :: rat\<bar> = of_int m" using assms by simp
  have e: "e \<le> 0"
    using ilog2_of_int_le[OF assms] by (simp add: e_def abs)
  define j where "j = nat (- e)"
  have p: "pow2 e = 1 / 2 ^ j" using e by (auto simp: pow2_def j_def)
  have q: "(of_int m :: rat) / pow2 e = of_int (m * 2 ^ j)"
    by (simp add: p)
  have r: "round_half_even (of_int m / pow2 e) = m * 2 ^ j"
    unfolding q by (rule round_half_even_of_int)
  have y: "of_int (round_half_even (of_int m / pow2 e)) * pow2 e = (of_int m :: rat)"
    unfolding r by (simp add: p)
  have "(of_int m :: rat) < 2 ^ 53" using assms
    by (metis of_int_less_numeral_power_cancel_iff)
  also have "\<dots> < 2 ^ 1024" by simp
  finally have small: "\<not> pow2 1024 \<le> (of_int m :: rat)" by (simp add: pow2_def)
  have nz: "(of_int m :: rat) \<noteq> 0" "0 < (of_int m :: rat)" using assms by simp_all
  show ?thesis
    unfolding fl_def using nz small
    by (simp add: abs Let_def y[unfolded e_def abs])
qed

lemma fl_of_int_exact:
  assumes "\<bar>n\<bar> \<le> 2 ^ 53"
  shows "fl (of_int n) = Fin (of_int n)"
proof -
  have top: "fl (of_int (2 ^ 53)) = Fin (of_int (2 ^ 53))" by code_simp
  have pos: "fl (of_int m) = Fin (of_int m)" if "0 < m" "m \<le> 2 ^ 53" for m
    using that top fl_of_nat_exact[of m] by (cases "m = 2 ^ 53") auto
  have neg: "fl (- x) = fneg (fl x)" for x
    by (auto simp: fl_def fneg_def Let_def)
  consider "n = 0" | "0 < n" | "n < 0" by linarith
  then show ?thesis
  proof cases
    case 1 then show ?thesis by (simp add: fl_def)
  next
    case 2 then show ?thesis using assms pos by simp
  next
    case 3
    then have "fl (of_int (- n)) = Fin (of_int (- n))" using assms pos[of "- n"] by simp
    then show ?thesis using neg[of "of_int (- n)"] by (simp add: fneg_def)
  qed
qed

lemma float_of_int_exact: "\<bar>n\<bar> \<le> 2 ^ 53 \<Longrightarrow> float_of_int n = Inr (Fin (of_int n))"
  by (simp add: float_of_int_def fl_of_int_exact)

lemma float_of_int_cases: "float_of_int n = Inl OverflowError \<or> (\<exists>q. float_of_int n = Inr (Fin q))"
  by (simp add: float_of_int_def split: pyfloat.splits)

lemma fdiv_100: "\<exists>q. fdiv x (Fin 100) = Inr q"
  by (cases x) (simp_all add: fdiv.simps)

section \<open>Decimal rendering\<close>

lemma digit_char_inj: "a < 10 \<Longrightarrow> b < 10 \<Longrightarrow> digit_char a = digit_char b \<Longrightarrow> a = b"
proof -
  assume a: "a < 10" and b: "b < 10" and eq: "digit_char a = digit_char b"
  have d: "distinct ''0123456789''" by simp
  have l: "length ''0123456789'' = 10" by simp
  from eq have "''0123456789'' ! a = ''0123456789'' ! b" by (simp only: digit_char_def)
  with d a b l show "a = b" by (metis nth_eq_iff_index_eq)
qed

lemma py_str_nonempty: "py_str n \<noteq> []"
  by (subst py_str.simps) simp

lemma py_str_small: "n < 10 \<Longrightarrow> py_str n = [digit_char n]"
  by (subst py_str.simps) simp

lemma py_str_large: "\<not> n < 10 \<Longrightarrow> py_str n = py_str (n div 10) @ [digit_char (n mod 10)]"
  by (subst py_str.simps) simp

lemma py_str_inj: "py_str m = py_str n \<Longrightarrow> m = n"
proof (induction m arbitrary: n rule: py_str.induct)
  case (1 m)
  show ?case
  proof (cases "m < 10")
    case True
    show ?thesis
    proof (cases "n < 10")
      case n: True
      with True "1.prems" show ?thesis
        by (auto simp: py_str_small dest: digit_char_inj)
    next
      case n: False
      with True "1.prems" py_str_nonempty[of "n div 10"] show ?thesis
        by (simp add: py_str_small py_str_large)
    qed
  next
    case False
    show ?thesis
    proof (cases "n < 10")
      case n: True
      with False "1.prems" py_str_nonempty[of "m div 10"] show ?thesis
        by (simp add: py_str_small py_str_large)
    next
      case n: False
      with False "1.prems" have eq: "py_str (m div 10) = py_str (n div 10)"
        and dg: "digit_char (m mod 10) = digit_char (n mod 10)"
        by (simp_all add: py_str_large)
      from "1.IH"[OF False eq] have "m div 10 = n div 10" .
      moreover from dg have "m mod 10 = n mod 10"
        by (intro digit_char_inj) simp_all
      ultimately show ?thesis by (metis div_mult_mod_eq)
    qed
  qed
qed

lemma invoice_name_inj: "invoice_name a = invoice_name b \<Longrightarrow> a = b"
  by (simp add: invoice_name_def py_str_inj)

lemma distinct_invoice_names: "distinct xs \<Longrightarrow> distinct (map invoice_name xs)"
  by (simp add: distinct_map inj_on_def) (metis invoice_name_inj)

lemma invoice_name_fresh: "invoice_name (Suc n) \<notin> set (map invoice_name [1..<Suc n])"
  using invoice_name_inj by fastforce

section \<open>The pricing loop\<close>

lemma unit_price_Some: "map_of ps sku = Some product \<Longrightarrow> unit_price ps sku = p_price product"
  by (simp add: unit_price_def)

lemma sum_prices_nonneg:
  "\<forall>sku\<in>set skus. 0 \<le> unit_price ps sku \<Longrightarrow> 0 \<le> (\<Sum>sku\<leftarrow>skus. unit_price ps sku)"
  by (rule sum_list_nonneg) auto

lemma price_loop_exact:
  assumes "\<forall>sku\<in>set skus. map_of ps sku \<noteq> None"
    and "\<forall>sku\<in>set skus. 0 \<le> unit_price ps sku"
    and "0 \<le> acc"
    and "acc + (\<Sum>sku\<leftarrow>skus. unit_price ps sku) \<le> 2 ^ 53"
  shows "price_loop ps (Fin (of_int acc)) skus = Inr (Fin (of_int (acc + (\<Sum>sku\<leftarrow>skus. unit_price ps sku))))"
  using assms
proof (induction skus arbitrary: acc)
  case Nil
  then show ?case by simp
next
  case (Cons sku skus)
  from Cons.prems(1) obtain product where p: "map_of ps sku = Some product" by auto
  have up: "unit_price ps sku = p_price product" by (rule unit_price_Some[OF p])
  have rest: "0 \<le> (\<Sum>k\<leftarrow>skus. unit_price ps k)"
    using Cons.prems(2) by (intro sum_prices_nonneg) simp
  have p0: "0 \<le> p_price product" using Cons.prems(2) up by simp
  have bound: "acc + p_price product \<le> 2 ^ 53" "p_price product \<le> 2 ^ 53"
    using Cons.prems(3,4) rest p0 up by simp_all
  have conv: "float_of_int (p_price product) = Inr (Fin (of_int (p_price product)))"
    using p0 bound by (simp add: float_of_int_exact)
  have add: "fadd (Fin (of_int acc)) (Fin (of_int (p_price product))) = Fin (of_int (acc + p_price product))"
    using fl_of_int_exact[of "acc + p_price product"] Cons.prems(3) p0 bound
    by (simp add: fadd.simps)
  have "price_loop ps (Fin (of_int (acc + p_price product))) skus
        = Inr (Fin (of_int (acc + p_price product + (\<Sum>k\<leftarrow>skus. unit_price ps k))))"
    using Cons.prems p0 up by (intro Cons.IH) simp_all
  then show ?case
    by (simp add: p conv add up add.assoc)
qed

lemma price_loop_missing:
  assumes "prices_convert ps" and "\<exists>sku\<in>set skus. map_of ps sku = None"
  shows "\<exists>missing. find (\<lambda>sku. map_of ps sku = None) skus = Some missing
           \<and> price_loop ps acc skus = Inl (Returned (RStr (''Product '' @ missing @ '' not found'')))"
  using assms(2)
proof (induction skus arbitrary: acc)
  case Nil
  then show ?case by simp
next
  case (Cons sku skus)
  show ?case
  proof (cases "map_of ps sku")
    case None
    then show ?thesis by simp
  next
    case (Some product)
    then have "(sku, product) \<in> set ps" by (rule map_of_SomeD)
    with assms(1) have "float_of_int (p_price product) \<noteq> Inl OverflowError"
      by (auto simp: prices_convert_def list_all_iff)
    then obtain q where q: "float_of_int (p_price product) = Inr (Fin q)"
      using float_of_int_cases[of "p_price product"] by auto
    from Cons.prems Some have "\<exists>k\<in>set skus. map_of ps k = None" by auto
    from Cons.IH[OF this, of "fadd acc (Fin q)"] show ?thesis
      by (simp add: Some q)
  qed
qed

section \<open>Issuing an invoice\<close>

text \<open>
  C1. When every listed sku is in the catalog, \<open>dispatch\<close> of an \<open>IssueInvoice\<close> creates
  an invoice whose \<open>total\<close> is the sum of the catalog unit prices of the listed skus
  (nothing is subtracted from it) and whose \<open>discount_amount\<close> is
  \<open>round(total * discount_percent / 100, 2)\<close>, computed on floats. The sum is exact as
  long as it stays within the integers that a float represents exactly (prices not
  negative, sum at most \<open>2 ^ 53\<close>), and \<open>discount_percent\<close> must convert to a float.
\<close>

theorem issue_invoice_total_and_discount:
  assumes "\<forall>sku\<in>set skus. map_of (db_products s) sku \<noteq> None"
    and "\<forall>sku\<in>set skus. 0 \<le> unit_price (db_products s) sku"
    and "(\<Sum>sku\<leftarrow>skus. unit_price (db_products s) sku) \<le> 2 ^ 53"
    and "float_of_int discount_percent = Inr percent"
  shows "\<exists>invoice q.
           dispatch s (IssueInvoice email skus discount_percent)
             = (Returned (RInvoice invoice),
                s\<lparr>db_invoices := AList.update (inv_id invoice) invoice (db_invoices s)\<rparr>)
           \<and> inv_total invoice = Fin (of_int (\<Sum>sku\<leftarrow>skus. unit_price (db_products s) sku))
           \<and> fdiv (fmul (inv_total invoice) percent) (Fin 100) = Inr q
           \<and> inv_discount_amount invoice = round2 q"
proof -
  let ?T = "\<Sum>sku\<leftarrow>skus. unit_price (db_products s) sku"
  have T0: "0 \<le> ?T" using assms(2) by (rule sum_prices_nonneg)
  have loop: "price_loop (db_products s) (Fin 0) skus = Inr (Fin (of_int ?T))"
    using price_loop_exact[of skus "db_products s" 0] assms(1,2,3) by simp
  have one: "fmul (Fin (of_int ?T)) (Fin 1) = Fin (of_int ?T)"
    using fl_of_int_exact[of ?T] T0 assms(3) by (simp add: fmul.simps)
  obtain q where q: "fdiv (fmul (Fin (of_int ?T)) percent) (Fin 100) = Inr q"
    using fdiv_100 by blast
  define invoice_id where "invoice_id = ''INV-'' @ py_str (length (db_invoices s) + 1)"
  define invoice where "invoice =
     \<lparr>inv_id = invoice_id, inv_email = email,
      inv_file = ''/invoices'' @ invoice_id @ ''.pdf'',
      inv_skus = skus, inv_discount_amount = round2 q,
      inv_discount_percent = discount_percent,
      inv_total = Fin (of_int ?T), inv_void = False\<rparr>"
  have "dispatch s (IssueInvoice email skus discount_percent)
          = (Returned (RInvoice invoice),
             s\<lparr>db_invoices := AList.update (inv_id invoice) invoice (db_invoices s)\<rparr>)"
    by (simp add: loop assms(4) one q Let_def invoice_def invoice_id_def)
  moreover have "inv_total invoice = Fin (of_int ?T)" "inv_discount_amount invoice = round2 q"
    by (simp_all add: invoice_def)
  ultimately show ?thesis using q by auto
qed

theorem issue_invoice_total_and_discount_witness:
  "(\<Sum>sku\<leftarrow>[''SKU-205'', ''SKU-210'']. unit_price (db_products DB) sku) \<le> 2 ^ 53
   \<and> float_of_int 10 = Inr (Fin 10)
   \<and> (\<exists>invoice.
         dispatch DB (IssueInvoice ''sama@openai.com'' [''SKU-205'', ''SKU-210''] 10)
           = (Returned (RInvoice invoice),
              DB\<lparr>db_invoices := AList.update (inv_id invoice) invoice (db_invoices DB)\<rparr>)
         \<and> inv_total invoice = Fin 1548
         \<and> inv_discount_amount invoice = Fin (2723270399675597 / 17592186044416))"
proof -
  let ?skus = "[''SKU-205'', ''SKU-210'']"
  have h1: "\<forall>sku\<in>set ?skus. map_of (db_products DB) sku \<noteq> None"
    by (simp add: DB_def)
  have h2: "\<forall>sku\<in>set ?skus. 0 \<le> unit_price (db_products DB) sku"
    by (simp add: DB_def unit_price_def)
  have sum: "(\<Sum>sku\<leftarrow>?skus. unit_price (db_products DB) sku) = 1548"
    by (simp add: DB_def unit_price_def)
  have h3: "(\<Sum>sku\<leftarrow>?skus. unit_price (db_products DB) sku) \<le> 2 ^ 53"
    unfolding sum by simp
  have h4: "float_of_int 10 = Inr (Fin 10)"
    by (simp add: float_of_int_exact)
  have q: "fdiv (fmul (Fin 1548) (Fin 10)) (Fin 100) = Inr (Fin (2723270399675597 / 17592186044416))"
    by code_simp
  have r: "round2 (Fin (2723270399675597 / 17592186044416)) = Fin (2723270399675597 / 17592186044416)"
    by code_simp
  from issue_invoice_total_and_discount[OF h1 h2 h3 h4, of "''sama@openai.com''"]
  obtain invoice q' where
    d: "dispatch DB (IssueInvoice ''sama@openai.com'' ?skus 10)
          = (Returned (RInvoice invoice),
             DB\<lparr>db_invoices := AList.update (inv_id invoice) invoice (db_invoices DB)\<rparr>)"
    and t: "inv_total invoice = Fin (of_int (\<Sum>sku\<leftarrow>?skus. unit_price (db_products DB) sku))"
    and q': "fdiv (fmul (inv_total invoice) (Fin 10)) (Fin 100) = Inr q'"
    and a: "inv_discount_amount invoice = round2 q'"
    by blast
  have t': "inv_total invoice = Fin 1548" using t unfolding sum by simp
  have "q' = Fin (2723270399675597 / 17592186044416)" using q' q unfolding t' by simp
  then have "inv_discount_amount invoice = Fin (2723270399675597 / 17592186044416)"
    using a r by simp
  with d t' h3 h4 show ?thesis by blast
qed

text \<open>
  C4. An \<open>IssueInvoice\<close> that lists a sku absent from the catalog returns the not-found
  message that names the first such sku, and the store after the call is the store
  before it: no invoice is created.
\<close>

theorem issue_invoice_unknown_sku:
  assumes "prices_convert (db_products s)"
    and "\<exists>sku\<in>set skus. map_of (db_products s) sku = None"
  shows "\<exists>missing.
           find (\<lambda>sku. map_of (db_products s) sku = None) skus = Some missing
           \<and> dispatch s (IssueInvoice email skus discount_percent)
               = (Returned (RStr (''Product '' @ missing @ '' not found'')), s)
           \<and> length (db_invoices (snd (dispatch s (IssueInvoice email skus discount_percent))))
               = length (db_invoices s)"
proof -
  from price_loop_missing[OF assms, of "Fin 0"] obtain missing where
    "find (\<lambda>sku. map_of (db_products s) sku = None) skus = Some missing"
    "price_loop (db_products s) (Fin 0) skus
       = Inl (Returned (RStr (''Product '' @ missing @ '' not found'')))"
    by blast
  then show ?thesis by simp
qed

theorem issue_invoice_unknown_sku_witness:
  "prices_convert (db_products DB)
   \<and> (\<exists>sku\<in>set [''SKU-205'', ''SKU-999'', ''SKU-998'']. map_of (db_products DB) sku = None)
   \<and> dispatch DB (IssueInvoice ''elon@x.com'' [''SKU-205'', ''SKU-999'', ''SKU-998''] 5)
       = (Returned (RStr ''Product SKU-999 not found''), DB)"
proof -
  have conv: "float_of_int 258 = Inr (Fin 258)" "float_of_int 1290 = Inr (Fin 1290)"
    "float_of_int 315 = Inr (Fin 315)"
    by (simp_all add: float_of_int_exact)
  have h1: "prices_convert (db_products DB)"
    by (simp add: prices_convert_def DB_def conv)
  have h2: "\<exists>sku\<in>set [''SKU-205'', ''SKU-999'', ''SKU-998'']. map_of (db_products DB) sku = None"
    by (simp add: DB_def)
  have f: "find (\<lambda>sku. map_of (db_products DB) sku = None) [''SKU-205'', ''SKU-999'', ''SKU-998'']
             = Some ''SKU-999''"
    by (simp add: DB_def)
  from issue_invoice_unknown_sku[OF h1 h2, of "''elon@x.com''" 5] f
  have "dispatch DB (IssueInvoice ''elon@x.com'' [''SKU-205'', ''SKU-999'', ''SKU-998''] 5)
       = (Returned (RStr ''Product SKU-999 not found''), DB)"
    by simp
  with h1 h2 show ?thesis by blast
qed

section \<open>What a call leaves in the store\<close>

lemma price_loop_early:
  "price_loop ps acc skus = Inl early \<Longrightarrow>
     (\<exists>e. early = Raised e) \<or> (\<exists>msg. early = Returned (RStr msg))"
  by (induction skus arbitrary: acc) (auto split: option.splits sum.splits)

text \<open>The four shapes of the store after a call.\<close>

lemma dispatch_store:
  assumes "dispatch s c = (out, s')"
  shows "s' = s
    \<or> (\<exists>email. s' = s\<lparr>db_emails := db_emails s @ [email]\<rparr>)
    \<or> (\<exists>rule. s' = s\<lparr>db_rules := db_rules s @ [rule]\<rparr>)
    \<or> (\<exists>invoice. out = Returned (RInvoice invoice)
          \<and> inv_id invoice = invoice_name (Suc (length (db_invoices s)))
          \<and> \<not> inv_void invoice
          \<and> (\<exists>email skus discount_percent. c = IssueInvoice email skus discount_percent)
          \<and> s' = s\<lparr>db_invoices := AList.update (inv_id invoice) invoice (db_invoices s)\<rparr>)
    \<or> (\<exists>invoice_id invoice reason. c = CancelInvoice invoice_id reason
          \<and> map_of (db_invoices s) invoice_id = Some invoice
          \<and> out = Returned (RInvoice (invoice\<lparr>inv_void := True\<rparr>))
          \<and> s' = s\<lparr>db_invoices := AList.update invoice_id (invoice\<lparr>inv_void := True\<rparr>) (db_invoices s)\<rparr>)"
proof (cases c)
  case (IssueInvoice email skus discount_percent)
  show ?thesis
  proof (cases "price_loop (db_products s) (Fin 0) skus")
    case (Inl early)
    with assms IssueInvoice show ?thesis by simp
  next
    case (Inr total')
    show ?thesis
    proof (cases "float_of_int discount_percent")
      case (Inl e)
      with assms IssueInvoice Inr show ?thesis by simp
    next
      case percent: (Inr percent)
      show ?thesis
      proof (cases "fdiv (fmul (fmul total' (Fin 1)) percent) (Fin 100)")
        case (Inl e)
        with assms IssueInvoice Inr percent show ?thesis by simp
      next
        case q: (Inr q)
        with assms IssueInvoice Inr percent show ?thesis
          by (auto simp: Let_def invoice_name_def)
      qed
    qed
  qed
qed (use assms in \<open>auto simp: Let_def split: option.splits\<close>)

lemma update_present_keys:
  "map_of al k = Some v \<Longrightarrow> map fst (AList.update k v' al) = map fst al"
  by (simp add: update_keys) (metis domI dom_map_of_conv_image_fst set_map)

lemma update_present_length:
  "map_of al k = Some v \<Longrightarrow> length (AList.update k v' al) = length al"
  using update_present_keys[of al k v v'] by (metis length_map)

lemma update_fresh:
  "k \<notin> set (map fst al) \<Longrightarrow> AList.update k v al = al @ [(k, v)]"
  by (induction al) auto

lemma ids_in_sequence_fresh:
  "ids_in_sequence s \<Longrightarrow> invoice_name (Suc (length (db_invoices s))) \<notin> set (map fst (db_invoices s))"
  unfolding ids_in_sequence_def using invoice_name_fresh[of "length (db_invoices s)"] by simp

lemma dispatch_ids_in_sequence:
  assumes "dispatch s c = (out, s')" and "ids_in_sequence s"
  shows "ids_in_sequence s'"
  using dispatch_store[OF assms(1)]
proof (elim disjE exE conjE)
  fix invoice email skus discount_percent
  assume id: "inv_id invoice = invoice_name (Suc (length (db_invoices s)))"
    and s': "s' = s\<lparr>db_invoices := AList.update (inv_id invoice) invoice (db_invoices s)\<rparr>"
  from ids_in_sequence_fresh[OF assms(2)] id
  have "AList.update (inv_id invoice) invoice (db_invoices s) = db_invoices s @ [(inv_id invoice, invoice)]"
    by (simp add: update_fresh)
  with assms(2) id s' show ?thesis
    by (simp add: ids_in_sequence_def)
next
  fix invoice_id invoice reason
  assume "map_of (db_invoices s) invoice_id = Some invoice"
    and "s' = s\<lparr>db_invoices := AList.update invoice_id (invoice\<lparr>inv_void := True\<rparr>) (db_invoices s)\<rparr>"
  with assms(2) show ?thesis
    by (simp add: ids_in_sequence_def update_present_keys update_present_length)
qed (use assms(2) in \<open>auto simp: ids_in_sequence_def\<close>)

section \<open>Invoice ids\<close>

lemma issue_invoice_outcome:
  assumes "dispatch s (IssueInvoice email skus discount_percent) = (out, s')"
  shows "(s' = s \<and> (\<forall>invoice. out \<noteq> Returned (RInvoice invoice)))
    \<or> (\<exists>invoice. out = Returned (RInvoice invoice)
          \<and> inv_id invoice = invoice_name (Suc (length (db_invoices s)))
          \<and> s' = s\<lparr>db_invoices := AList.update (inv_id invoice) invoice (db_invoices s)\<rparr>)"
proof (cases "price_loop (db_products s) (Fin 0) skus")
  case (Inl early)
  with assms price_loop_early[OF Inl] show ?thesis by auto
next
  case (Inr total')
  show ?thesis
  proof (cases "float_of_int discount_percent")
    case (Inl e)
    with assms Inr show ?thesis by auto
  next
    case percent: (Inr percent)
    show ?thesis
    proof (cases "fdiv (fmul (fmul total' (Fin 1)) percent) (Fin 100)")
      case (Inl e)
      with assms Inr percent show ?thesis by auto
    next
      case q: (Inr q)
      with assms Inr percent show ?thesis
        by (auto simp: Let_def invoice_name_def)
    qed
  qed
qed

text \<open>
  One call on a store with ids in sequence: the ids stay in sequence, and the number of
  invoices grows by one exactly when an \<open>IssueInvoice\<close> returned an invoice, whose id
  is then the next one.
\<close>

lemma created_ids_Cons:
  "created_ids (c # cs) (out # outs) =
     (case c of
        IssueInvoice email skus discount_percent \<Rightarrow>
          (case out of
             Returned (RInvoice invoice) \<Rightarrow> inv_id invoice # created_ids cs outs
           | _ \<Rightarrow> created_ids cs outs)
      | _ \<Rightarrow> created_ids cs outs)"
  by (cases c; cases out; simp split: result.splits)

lemma dispatch_step:
  assumes "dispatch s c = (out, s')" and "ids_in_sequence s"
  shows "ids_in_sequence s'
    \<and> (created_ids (c # cs) (out # outs) = created_ids cs outs
          \<and> length (db_invoices s') = length (db_invoices s)
        \<or> created_ids (c # cs) (out # outs)
             = invoice_name (Suc (length (db_invoices s))) # created_ids cs outs
          \<and> length (db_invoices s') = Suc (length (db_invoices s)))"
proof (cases c)
  case (IssueInvoice email skus discount_percent)
  from issue_invoice_outcome[OF assms(1)[unfolded IssueInvoice]] show ?thesis
  proof (elim disjE exE conjE)
    assume "s' = s" "\<forall>invoice. out \<noteq> Returned (RInvoice invoice)"
    with assms(2) IssueInvoice show ?thesis
      by (auto simp: created_ids_Cons split: outcome.splits result.splits)
  next
    fix invoice
    assume out: "out = Returned (RInvoice invoice)"
      and id: "inv_id invoice = invoice_name (Suc (length (db_invoices s)))"
      and s': "s' = s\<lparr>db_invoices := AList.update (inv_id invoice) invoice (db_invoices s)\<rparr>"
    from ids_in_sequence_fresh[OF assms(2)] id
    have "AList.update (inv_id invoice) invoice (db_invoices s) = db_invoices s @ [(inv_id invoice, invoice)]"
      by (simp add: update_fresh)
    with assms(2) id s' out IssueInvoice show ?thesis
      by (simp add: ids_in_sequence_def created_ids_Cons)
  qed
next
  case (CancelInvoice invoice_id reason)
  with assms show ?thesis
    by (auto simp: created_ids_Cons ids_in_sequence_def Let_def update_present_keys
          update_present_length split: option.splits)
qed (use assms in \<open>auto simp: created_ids_Cons ids_in_sequence_def Let_def\<close>)

lemma dispatch_all_created_ids:
  assumes "ids_in_sequence s" and "dispatch_all s cmds = (outs, s')"
  shows "ids_in_sequence s'
    \<and> length (db_invoices s) \<le> length (db_invoices s')
    \<and> created_ids cmds outs
         = map invoice_name [Suc (length (db_invoices s))..<Suc (length (db_invoices s'))]"
  using assms
proof (induction cmds arbitrary: s outs s')
  case Nil
  then show ?case by simp
next
  case (Cons c cs)
  obtain out s1 where d: "dispatch s c = (out, s1)" by (cases "dispatch s c")
  obtain outs1 s2 where a: "dispatch_all s1 cs = (outs1, s2)" by (cases "dispatch_all s1 cs")
  from Cons.prems(2) d a have outs: "outs = out # outs1" and s': "s' = s2" by simp_all
  from dispatch_step[OF d Cons.prems(1), of cs outs1]
  have seq1: "ids_in_sequence s1"
    and step: "created_ids (c # cs) (out # outs1) = created_ids cs outs1
          \<and> length (db_invoices s1) = length (db_invoices s)
        \<or> created_ids (c # cs) (out # outs1)
             = invoice_name (Suc (length (db_invoices s))) # created_ids cs outs1
          \<and> length (db_invoices s1) = Suc (length (db_invoices s))"
    by simp_all
  from Cons.IH[OF seq1 a]
  have seq2: "ids_in_sequence s2" and le: "length (db_invoices s1) \<le> length (db_invoices s2)"
    and ids: "created_ids cs outs1
         = map invoice_name [Suc (length (db_invoices s1))..<Suc (length (db_invoices s2))]"
    by simp_all
  from step show ?case
  proof
    assume "created_ids (c # cs) (out # outs1) = created_ids cs outs1
          \<and> length (db_invoices s1) = length (db_invoices s)"
    with seq2 le ids outs s' show ?thesis by (simp del: upt_Suc)
  next
    assume st: "created_ids (c # cs) (out # outs1)
             = invoice_name (Suc (length (db_invoices s))) # created_ids cs outs1
          \<and> length (db_invoices s1) = Suc (length (db_invoices s))"
    with le have "[Suc (length (db_invoices s))..<Suc (length (db_invoices s2))]
        = Suc (length (db_invoices s)) # [Suc (length (db_invoices s1))..<Suc (length (db_invoices s2))]"
      by (simp add: upt_conv_Cons)
    with st seq2 le ids outs s' show ?thesis by (simp del: upt_Suc)
  qed
qed

text \<open>
  C3. On a store that starts with no invoice, whatever the sequence of commands, the
  ids of the invoices that the \<open>IssueInvoice\<close> commands returned are \<open>INV-1\<close>,
  \<open>INV-2\<close>, ... in the order of creation, each one once, also when invoices were
  cancelled in between.
\<close>

theorem issued_ids_consecutive:
  assumes "db_invoices s = []"
  shows "created_ids cmds (fst (dispatch_all s cmds))
           = map invoice_name [1..<Suc (length (created_ids cmds (fst (dispatch_all s cmds))))]
         \<and> distinct (created_ids cmds (fst (dispatch_all s cmds)))
         \<and> (\<forall>k < length (created_ids cmds (fst (dispatch_all s cmds))).
               created_ids cmds (fst (dispatch_all s cmds)) ! k = ''INV-'' @ py_str (Suc k))"
proof -
  obtain outs s' where a: "dispatch_all s cmds = (outs, s')" by (cases "dispatch_all s cmds")
  have seq: "ids_in_sequence s" using assms by (simp add: ids_in_sequence_def)
  from dispatch_all_created_ids[OF seq a] assms
  have ids: "created_ids cmds outs = map invoice_name [1..<Suc (length (db_invoices s'))]"
    by simp
  then have len: "length (created_ids cmds outs) = length (db_invoices s')"
    by (simp del: upt_Suc)
  have "distinct (created_ids cmds outs)"
    unfolding ids by (rule distinct_invoice_names) simp
  moreover have "created_ids cmds outs ! k = ''INV-'' @ py_str (Suc k)"
    if "k < length (created_ids cmds outs)" for k
  proof -
    from that len have k: "k < length [1..<Suc (length (db_invoices s'))]" by simp
    have "[1..<Suc (length (db_invoices s'))] ! k = Suc k"
      using k by (simp add: nth_upt del: upt_Suc)
    with k show ?thesis unfolding ids
      by (simp add: nth_map invoice_name_def del: upt_Suc)
  qed
  ultimately show ?thesis using ids len a by (simp del: upt_Suc)
qed

text \<open>Facts that evaluate a call on the shipped store.\<close>

lemma fl_small: "fl 258 = Fin 258" "fl 1290 = Fin 1290" "fl 315 = Fin 315" "fl 0 = Fin 0"
  using fl_of_int_exact[of 258] fl_of_int_exact[of 1290] fl_of_int_exact[of 315] fl_of_int_exact[of 0]
  by simp_all

lemma py_str_digits: "py_str (Suc 0) = ''1''" "py_str 2 = ''2''" "py_str 3 = ''3''"
  by (simp_all add: py_str.simps digit_char_def)

lemmas eval_dispatch =
  DB_def float_of_int_exact fadd.simps fmul.simps fdiv.simps fl_small round2_def
  round_half_even_def Let_def py_str_digits

theorem issued_ids_consecutive_witness:
  "db_invoices DB = []
   \<and> created_ids
        [IssueInvoice ''sama@openai.com'' [''SKU-205''] 0,
         CancelInvoice ''INV-1'' ''wrong product'',
         IssueInvoice ''sama@openai.com'' [''SKU-999''] 0,
         IssueInvoice ''sama@openai.com'' [''SKU-210''] 0]
        (fst (dispatch_all DB
           [IssueInvoice ''sama@openai.com'' [''SKU-205''] 0,
            CancelInvoice ''INV-1'' ''wrong product'',
            IssueInvoice ''sama@openai.com'' [''SKU-999''] 0,
            IssueInvoice ''sama@openai.com'' [''SKU-210''] 0]))
       = [''INV-1'', ''INV-2'']"
proof -
  let ?cmds = "[IssueInvoice ''sama@openai.com'' [''SKU-205''] 0,
         CancelInvoice ''INV-1'' ''wrong product'',
         IssueInvoice ''sama@openai.com'' [''SKU-999''] 0,
         IssueInvoice ''sama@openai.com'' [''SKU-210''] 0]"
  have h: "db_invoices DB = []" by (simp add: DB_def)
  have n: "length (created_ids ?cmds (fst (dispatch_all DB ?cmds))) = 2"
    by (simp add: eval_dispatch)
  from issued_ids_consecutive[OF h, of ?cmds]
  have "created_ids ?cmds (fst (dispatch_all DB ?cmds)) = map invoice_name [1..<Suc 2]"
    unfolding n by simp
  also have "\<dots> = [''INV-1'', ''INV-2'']"
  proof -
    have "[1..<Suc 2] = [Suc 0, 2]" by (simp add: upt_rec)
    then show ?thesis by (simp add: invoice_name_def py_str_digits)
  qed
  finally show ?thesis using h by simp
qed

section \<open>Cancelling an invoice\<close>

text \<open>
  C5. \<open>CancelInvoice\<close> on an id of the store sets the \<open>void\<close> flag of that invoice,
  stores it under the same id and returns it; cancelling the same id again returns the
  same invoice, still void, and leaves the store as it is. On an id that the store
  lacks it returns the not-found message and the store is unchanged.
\<close>

theorem cancel_invoice_sets_void:
  "(map_of (db_invoices s) invoice_id = Some invoice \<longrightarrow>
      (\<exists>s'. dispatch s (CancelInvoice invoice_id reason)
               = (Returned (RInvoice (invoice\<lparr>inv_void := True\<rparr>)), s')
           \<and> s' = s\<lparr>db_invoices :=
                      AList.update invoice_id (invoice\<lparr>inv_void := True\<rparr>) (db_invoices s)\<rparr>
           \<and> map_of (db_invoices s') invoice_id = Some (invoice\<lparr>inv_void := True\<rparr>)
           \<and> (\<forall>other. other \<noteq> invoice_id \<longrightarrow>
                  map_of (db_invoices s') other = map_of (db_invoices s) other)
           \<and> dispatch s' (CancelInvoice invoice_id reason')
               = (Returned (RInvoice (invoice\<lparr>inv_void := True\<rparr>)), s')))
   \<and> (map_of (db_invoices s) invoice_id = None \<longrightarrow>
        dispatch s (CancelInvoice invoice_id reason)
          = (Returned (RStr (''Invoice '' @ invoice_id @ '' not found'')), s))"
  by (simp add: update_conv' Let_def)

theorem cancel_invoice_sets_void_witness:
  "dispatch two_invoices (CancelInvoice ''INV-1'' ''wrong product'')
     = (Returned (RInvoice
          \<lparr>inv_id = ''INV-1'', inv_email = ''sama@openai.com'',
           inv_file = ''/invoicesINV-1.pdf'', inv_skus = [''SKU-205''],
           inv_discount_amount = Fin 0, inv_discount_percent = 0,
           inv_total = Fin 258, inv_void = True\<rparr>),
        two_invoices\<lparr>db_invoices :=
          AList.update ''INV-1''
            \<lparr>inv_id = ''INV-1'', inv_email = ''sama@openai.com'',
             inv_file = ''/invoicesINV-1.pdf'', inv_skus = [''SKU-205''],
             inv_discount_amount = Fin 0, inv_discount_percent = 0,
             inv_total = Fin 258, inv_void = True\<rparr> (db_invoices two_invoices)\<rparr>)
   \<and> dispatch two_invoices (CancelInvoice ''INV-7'' ''wrong product'')
       = (Returned (RStr ''Invoice INV-7 not found''), two_invoices)"
proof -
  let ?inv = "\<lparr>inv_id = ''INV-1'', inv_email = ''sama@openai.com'',
           inv_file = ''/invoicesINV-1.pdf'', inv_skus = [''SKU-205''],
           inv_discount_amount = Fin 0, inv_discount_percent = 0,
           inv_total = Fin 258, inv_void = False\<rparr>"
  have h1: "map_of (db_invoices two_invoices) ''INV-1'' = Some ?inv"
    by (simp add: two_invoices_def)
  have h2: "map_of (db_invoices two_invoices) ''INV-7'' = None"
    by (simp add: two_invoices_def)
  from cancel_invoice_sets_void[of two_invoices "''INV-1''" ?inv "''wrong product''"] h1
    cancel_invoice_sets_void[of two_invoices "''INV-7''" ?inv "''wrong product''"] h2
  show ?thesis by simp
qed

section \<open>Customer data\<close>

text \<open>
  C7. \<open>GetCustomerData\<close> with address \<open>E\<close> returns the rules and the invoices whose
  \<open>email\<close> is the string \<open>E\<close> and the emails whose \<open>to\<close> is the string \<open>E\<close>, all of
  them and no other, in the order of the store; the strings are compared as they are.
  The store is unchanged.
\<close>

theorem get_customer_data_exact:
  "\<exists>data. dispatch s (GetCustomerData E) = (Returned (RCustomerData data), s)
     \<and> (\<forall>r. r \<in> set (cd_rules data) \<longleftrightarrow> r \<in> set (db_rules s) \<and> r_email r = E)
     \<and> (\<forall>i. i \<in> set (cd_invoices data) \<longleftrightarrow> i \<in> set (db_invoices s) \<and> inv_email (snd i) = E)
     \<and> (\<forall>m. m \<in> set (cd_emails data) \<longleftrightarrow> m \<in> set (db_emails s) \<and> em_to m = E)
     \<and> subseq (cd_rules data) (db_rules s)
     \<and> subseq (cd_invoices data) (db_invoices s)
     \<and> subseq (cd_emails data) (db_emails s)
     \<and> length (cd_rules data) = length (filter (\<lambda>r. r_email r = E) (db_rules s))
     \<and> length (cd_invoices data) = length (filter (\<lambda>i. inv_email (snd i) = E) (db_invoices s))
     \<and> length (cd_emails data) = length (filter (\<lambda>m. em_to m = E) (db_emails s))"
  by auto

theorem get_customer_data_exact_witness:
  "dispatch two_invoices (GetCustomerData ''sama@openai.com'')
     = (Returned (RCustomerData
          \<lparr>cd_rules = [\<lparr>r_email = ''sama@openai.com'', r_rule = ''5% discount''\<rparr>],
           cd_invoices =
             [(''INV-1'', \<lparr>inv_id = ''INV-1'', inv_email = ''sama@openai.com'',
                 inv_file = ''/invoicesINV-1.pdf'', inv_skus = [''SKU-205''],
                 inv_discount_amount = Fin 0, inv_discount_percent = 0,
                 inv_total = Fin 258, inv_void = False\<rparr>)],
           cd_emails = [\<lparr>em_to = ''sama@openai.com'', em_subject = ''Invoice'', em_message = ''Attached''\<rparr>]\<rparr>),
        two_invoices)"
  using get_customer_data_exact[of two_invoices "''sama@openai.com''"]
  by (simp add: two_invoices_def)

section \<open>Nothing is removed\<close>

lemma update_keys_prefix: "prefix (map fst al) (map fst (AList.update k v al))"
  by (simp add: update_keys)

lemma map_of_in_keys: "map_of al k = Some v \<Longrightarrow> k \<in> set (map fst al)"
  by (metis domI dom_map_of_conv_image_fst set_map)

text \<open>
  C8. Whatever the command and the store, a call leaves the product catalog as it was,
  only appends to the rules and to the emails, and keeps every invoice id, in the same
  order. On a store whose ids are in sequence every invoice is still there under its
  id, unchanged or with its \<open>void\<close> flag set.
\<close>

theorem dispatch_never_removes:
  assumes "dispatch s c = (out, s')"
  shows "db_products s' = db_products s
     \<and> prefix (db_rules s) (db_rules s')
     \<and> prefix (db_emails s) (db_emails s')
     \<and> prefix (map fst (db_invoices s)) (map fst (db_invoices s'))
     \<and> (ids_in_sequence s \<longrightarrow>
          (\<forall>k invoice. map_of (db_invoices s) k = Some invoice \<longrightarrow>
             map_of (db_invoices s') k = Some invoice
             \<or> map_of (db_invoices s') k = Some (invoice\<lparr>inv_void := True\<rparr>)))"
  using dispatch_store[OF assms]
proof (elim disjE exE conjE)
  fix invoice email skus discount_percent
  assume id: "inv_id invoice = invoice_name (Suc (length (db_invoices s)))"
    and s': "s' = s\<lparr>db_invoices := AList.update (inv_id invoice) invoice (db_invoices s)\<rparr>"
  have "map_of (db_invoices s') k = Some old"
    if "ids_in_sequence s" "map_of (db_invoices s) k = Some old" for k old
  proof -
    from that(2) have "k \<in> set (map fst (db_invoices s))" by (rule map_of_in_keys)
    with ids_in_sequence_fresh[OF that(1)] id have "k \<noteq> inv_id invoice" by metis
    with that(2) s' show ?thesis by (simp add: update_conv')
  qed
  with s' show ?thesis by (simp add: update_keys_prefix)
next
  fix invoice_id invoice reason
  assume old: "map_of (db_invoices s) invoice_id = Some invoice"
    and s': "s' = s\<lparr>db_invoices := AList.update invoice_id (invoice\<lparr>inv_void := True\<rparr>) (db_invoices s)\<rparr>"
  then show ?thesis by (auto simp: update_keys_prefix update_conv')
qed auto

theorem dispatch_never_removes_witness:
  "db_products (snd (dispatch two_invoices (CancelInvoice ''INV-1'' ''wrong product'')))
     = db_products two_invoices
   \<and> map fst (db_invoices (snd (dispatch two_invoices (CancelInvoice ''INV-1'' ''wrong product''))))
     = [''INV-1'', ''INV-2'']
   \<and> ids_in_sequence two_invoices
   \<and> inv_void (the (map_of
        (db_invoices (snd (dispatch two_invoices (CancelInvoice ''INV-1'' ''wrong product''))))
        ''INV-1''))"
proof -
  obtain out s' where d: "dispatch two_invoices (CancelInvoice ''INV-1'' ''wrong product'') = (out, s')"
    by (cases "dispatch two_invoices (CancelInvoice ''INV-1'' ''wrong product'')")
  have seq: "ids_in_sequence two_invoices"
  proof -
    have l: "length (db_invoices two_invoices) = 2" by (simp add: two_invoices_def)
    have u: "[1..<Suc 2] = [Suc 0, 2]" by (simp add: upt_rec)
    show ?thesis unfolding ids_in_sequence_def l u
      by (simp add: two_invoices_def invoice_name_def py_str_digits)
  qed
  from dispatch_never_removes[OF d]
  have "db_products s' = db_products two_invoices" by simp
  moreover have "map fst (db_invoices s') = [''INV-1'', ''INV-2'']"
    "inv_void (the (map_of (db_invoices s') ''INV-1''))"
    using d by (auto simp: two_invoices_def Let_def)
  ultimately show ?thesis using d seq by simp
qed

section \<open>The two \<open>dispatch\<close> functions\<close>

text \<open>
  The \<open>dispatch\<close> of \<open>schema_demo.py\<close> and the one of \<open>vanilla_sgr/schema_demo.py\<close>
  do the same on every command but an \<open>IssueInvoice\<close> whose skus are all in the
  catalog: there the former raises \<open>UnboundLocalError\<close> and leaves the store as it is.
\<close>

lemma dispatch_top_differs_on_issue:
  "dispatch_top s c =
     (case c of
        IssueInvoice email skus discount_percent \<Rightarrow>
          (case price_loop (db_products s) (Fin 0) skus of
             Inl early \<Rightarrow> dispatch s c
           | Inr total' \<Rightarrow> (Raised UnboundLocalError, s))
      | _ \<Rightarrow> dispatch s c)"
  by (cases c) (simp_all split: sum.splits)

text \<open>
  C10. The two functions are not equivalent: on the shipped store, for an
  \<open>IssueInvoice\<close> of one product of the catalog, the \<open>dispatch\<close> of
  \<open>vanilla_sgr/schema_demo.py\<close> returns the invoice \<open>INV-1\<close> and stores it, and the
  one of \<open>schema_demo.py\<close> raises \<open>UnboundLocalError\<close> and stores nothing.
\<close>

theorem dispatch_top_issue_invoice_raises:
  "dispatch_top DB (IssueInvoice ''sama@openai.com'' [''SKU-205''] 0)
     = (Raised UnboundLocalError, DB)
   \<and> dispatch DB (IssueInvoice ''sama@openai.com'' [''SKU-205''] 0)
     = (Returned (RInvoice
          \<lparr>inv_id = ''INV-1'', inv_email = ''sama@openai.com'',
           inv_file = ''/invoicesINV-1.pdf'', inv_skus = [''SKU-205''],
           inv_discount_amount = Fin 0, inv_discount_percent = 0,
           inv_total = Fin 258, inv_void = False\<rparr>),
        DB\<lparr>db_invoices :=
          [(''INV-1'',
            \<lparr>inv_id = ''INV-1'', inv_email = ''sama@openai.com'',
             inv_file = ''/invoicesINV-1.pdf'', inv_skus = [''SKU-205''],
             inv_discount_amount = Fin 0, inv_discount_percent = 0,
             inv_total = Fin 258, inv_void = False\<rparr>)]\<rparr>)"
  by (simp add: eval_dispatch)

section \<open>Decoding\<close>

lemma validate_function_Inr: "validate_function c = Inr c' \<Longrightarrow> c' = c"
  by (cases c) (auto split: if_splits)

lemma model_validate_Inr: "model_validate job_dict = Inr job \<Longrightarrow> job = job_dict"
  by (auto simp: model_validate_def split: if_splits sum.splits dest: validate_function_Inr)

lemma print_all_None:
  "\<forall>item\<in>set items. console_print item = None \<Longrightarrow> print_all console_print out items = (None, out @ items)"
  by (induction items arbitrary: out) simp_all

lemma print_all_printed:
  "print_all console_print out items = (r, out') \<Longrightarrow>
     \<exists>printed. out' = out @ printed \<and> set printed \<subseteq> set items"
proof (induction items arbitrary: out)
  case Nil
  then show ?case by simp
next
  case (Cons item items)
  show ?case
  proof (cases "console_print item")
    case None
    with Cons.prems have "print_all console_print (out @ [item]) items = (r, out')" by simp
    from Cons.IH[OF this] obtain printed where "out' = (out @ [item]) @ printed" "set printed \<subseteq> set items"
      by blast
    then have "out' = out @ (item # printed) \<and> set (item # printed) \<subseteq> set (item # items)" by auto
    then show ?thesis by blast
  next
    case (Some e)
    with Cons.prems show ?thesis by auto
  qed
qed

text \<open>
  A step whose candidate fails validation raises before anything is appended to the log
  or dispatched.
\<close>

lemma run_steps_invalid:
  assumes "completion log' = Inr job_dict" and "model_validate job_dict = Inl e"
  shows "\<exists>e' out'. run_steps console_print model_name completion (i # rng) log' s out = (Some e', log', s, out')"
    and "console_print (Text (''Planning step_'' @ py_str (i + 1) @ ''... '')) = None
         \<Longrightarrow> console_print (Text model_name) = None
         \<Longrightarrow> run_steps console_print model_name completion (i # rng) log' s out
             = (Some e, log', s,
                out @ [Text (''Planning step_'' @ py_str (i + 1) @ ''... ''), Text model_name])"
proof -
  obtain r out1 where p: "print_all console_print out
      [Text (''Planning '' @ (''step_'' @ py_str (i + 1)) @ ''... ''), Text model_name] = (r, out1)"
    by (cases "print_all console_print out
      [Text (''Planning '' @ (''step_'' @ py_str (i + 1)) @ ''... ''), Text model_name]")
  show "\<exists>e' out'. run_steps console_print model_name completion (i # rng) log' s out = (Some e', log', s, out')"
    using p assms by (cases r) (simp_all add: Let_def del: print_all.simps)
  show "run_steps console_print model_name completion (i # rng) log' s out
             = (Some e, log', s,
                out @ [Text (''Planning step_'' @ py_str (i + 1) @ ''... ''), Text model_name])"
    if "console_print (Text (''Planning step_'' @ py_str (i + 1) @ ''... '')) = None"
      "console_print (Text model_name) = None"
    using that assms by (simp add: Let_def)
qed

text \<open>
  C2, as the code has it. A decoded \<open>IssueInvoice\<close> has \<open>discount_percent\<close> at most
  \<open>50\<close>; no lower bound is declared. A candidate with a larger value is rejected with
  \<open>ValidationError\<close>, and the step that decoded it ends the run with an exception, the
  log and the store as they were: nothing is dispatched. The exception is the
  \<open>ValidationError\<close> when the two prints that precede the decoding did not raise. A
  candidate with a value of at most \<open>50\<close> (and a plan of one to five items) is accepted
  as it is.
\<close>

theorem discount_percent_validation:
  "(model_validate job_dict = Inr job \<and> ns_function job = IssueInvoice email skus discount_percent
      \<longrightarrow> discount_percent \<le> 50)
   \<and> (ns_function job_dict = IssueInvoice email skus discount_percent \<and> 50 < discount_percent
      \<longrightarrow> model_validate job_dict = Inl ValidationError
          \<and> (completion log' = Inr job_dict
               \<longrightarrow> (\<exists>e out'. run_steps console_print model_name completion (i # rng) log' s out
                               = (Some e, log', s, out'))
                   \<and> (console_print (Text (''Planning step_'' @ py_str (i + 1) @ ''... '')) = None
                        \<and> console_print (Text model_name) = None
                       \<longrightarrow> run_steps console_print model_name completion (i # rng) log' s out
                             = (Some ValidationError, log', s,
                                out @ [Text (''Planning step_'' @ py_str (i + 1) @ ''... ''),
                                       Text model_name]))))
   \<and> (ns_function job_dict = IssueInvoice email skus discount_percent \<and> discount_percent \<le> 50
       \<and> 1 \<le> length (ns_plan_remaining_steps_brief job_dict)
       \<and> length (ns_plan_remaining_steps_brief job_dict) \<le> 5
      \<longrightarrow> model_validate job_dict = Inr job_dict)"
proof (intro conjI impI)
  assume a: "model_validate job_dict = Inr job \<and> ns_function job = IssueInvoice email skus discount_percent"
  then have "job = job_dict" by (auto dest: model_validate_Inr)
  with a show "discount_percent \<le> 50"
    by (auto simp: model_validate_def split: if_splits sum.splits)
next
  assume a: "ns_function job_dict = IssueInvoice email skus discount_percent \<and> 50 < discount_percent"
  then show v: "model_validate job_dict = Inl ValidationError"
    by (simp add: model_validate_def)
  assume c: "completion log' = Inr job_dict"
  note inv = run_steps_invalid[where completion = completion and job_dict = job_dict
      and e = ValidationError and console_print = console_print and model_name = model_name
      and i = i and rng = rng and s = s and out = out, OF c v]
  from inv(1)
  show "\<exists>e out'. run_steps console_print model_name completion (i # rng) log' s out
                               = (Some e, log', s, out')" .
  assume "console_print (Text (''Planning step_'' @ py_str (i + 1) @ ''... '')) = None
                        \<and> console_print (Text model_name) = None"
  with inv(2)
  show "run_steps console_print model_name completion (i # rng) log' s out
                             = (Some ValidationError, log', s,
                                out @ [Text (''Planning step_'' @ py_str (i + 1) @ ''... ''),
                                       Text model_name])"
    by simp
next
  assume "ns_function job_dict = IssueInvoice email skus discount_percent \<and> discount_percent \<le> 50
       \<and> 1 \<le> length (ns_plan_remaining_steps_brief job_dict)
       \<and> length (ns_plan_remaining_steps_brief job_dict) \<le> 5"
  then show "model_validate job_dict = Inr job_dict"
    by (simp add: model_validate_def)
qed

theorem discount_percent_validation_witness:
  "model_validate (candidate 51) = Inl ValidationError
   \<and> run_steps plain_console ''gpt-4o'' always_invalid [0] [System ''prompt'', User ''task''] DB []
       = (Some ValidationError, [System ''prompt'', User ''task''], DB,
          [Text ''Planning step_1... '', Text ''gpt-4o''])
   \<and> model_validate (candidate 50) = Inr (candidate 50)"
proof -
  have f: "ns_function (candidate d) = IssueInvoice ''sama@openai.com'' [''SKU-205''] d" for d
    by (simp add: candidate_def)
  have p: "1 \<le> length (ns_plan_remaining_steps_brief (candidate 50))"
    "length (ns_plan_remaining_steps_brief (candidate 50)) \<le> 5"
    by (simp_all add: candidate_def)
  from discount_percent_validation[of "candidate 51" "candidate 51" "''sama@openai.com''"
      "[''SKU-205'']" 51 always_invalid "[System ''prompt'', User ''task'']" plain_console
      "''gpt-4o''" 0 "[]" DB "[]"]
    discount_percent_validation[of "candidate 50" "candidate 50" "''sama@openai.com''"
      "[''SKU-205'']" 50]
  show ?thesis using f p
    by (simp add: always_invalid_def plain_console_def py_str_digits)
qed

text \<open>
  The claim as stated also asks for the rejection of every negative value. The candidate
  with \<open>discount_percent = -1\<close> is accepted.
\<close>

theorem negative_discount_percent_accepted:
  "model_validate (candidate (- 1)) = Inr (candidate (- 1))
   \<and> ns_function (candidate (- 1)) = IssueInvoice ''sama@openai.com'' [''SKU-205''] (- 1)"
  by (simp add: model_validate_def candidate_def)

section \<open>The step budget\<close>

lemma print_all_no_rule:
  assumes "print_all console_print out items = (r, out')"
    and "list_all (\<lambda>item. \<not> is_rule item) out" and "list_all (\<lambda>item. \<not> is_rule item) items"
  shows "list_all (\<lambda>item. \<not> is_rule item) out'"
proof -
  from print_all_printed[OF assms(1)] obtain printed where
    "out' = out @ printed" "set printed \<subseteq> set items" by blast
  with assms(2,3) show ?thesis by (auto simp: list_all_iff)
qed

lemma price_loop_returns:
  assumes "prices_convert ps"
  shows "(\<exists>msg. price_loop ps acc skus = Inl (Returned (RStr msg))) \<or> (\<exists>t. price_loop ps acc skus = Inr t)"
proof (induction skus arbitrary: acc)
  case Nil
  then show ?case by simp
next
  case (Cons sku skus)
  show ?case
  proof (cases "map_of ps sku")
    case None
    then show ?thesis by simp
  next
    case (Some product)
    then have "(sku, product) \<in> set ps" by (rule map_of_SomeD)
    with assms have "float_of_int (p_price product) \<noteq> Inl OverflowError"
      by (auto simp: prices_convert_def list_all_iff)
    then obtain q where q: "float_of_int (p_price product) = Inr (Fin q)"
      using float_of_int_cases[of "p_price product"] by auto
    from Cons.IH[of "fadd acc (Fin q)"] show ?thesis by (simp add: Some q)
  qed
qed

text \<open>
  On a catalog whose prices convert, and for a \<open>discount_percent\<close> that converts,
  \<open>dispatch\<close> returns.
\<close>

lemma dispatch_returns:
  assumes "prices_convert (db_products s)"
    and "\<forall>email skus d. c = IssueInvoice email skus d \<longrightarrow> float_of_int d \<noteq> Inl OverflowError"
  shows "\<exists>r s'. dispatch s c = (Returned r, s') \<and> db_products s' = db_products s"
proof (cases c)
  case (IssueInvoice email skus d)
  with assms(2) obtain q where q: "float_of_int d = Inr (Fin q)"
    using float_of_int_cases[of d] by auto
  from price_loop_returns[OF assms(1), of "Fin 0" skus] show ?thesis
  proof (elim disjE exE)
    fix msg assume "price_loop (db_products s) (Fin 0) skus = Inl (Returned (RStr msg))"
    with IssueInvoice show ?thesis by simp
  next
    fix t assume t: "price_loop (db_products s) (Fin 0) skus = Inr t"
    obtain x where "fdiv (fmul (fmul t (Fin 1)) (Fin q)) (Fin 100) = Inr x"
      using fdiv_100 by blast
    with IssueInvoice t q show ?thesis by (simp add: Let_def)
  qed
qed (auto simp: Let_def split: option.splits)

lemma run_steps_no_report:
  assumes "\<forall>log' job. completion log' = Inr job \<longrightarrow> \<not> is_report (ns_function job)"
    and "run_steps console_print model_name completion rng log0 s out0 = (r, log2, s2, out2)"
  shows "(r = None \<longrightarrow> dispatched log2 = dispatched log0 + length rng)
    \<and> (\<forall>e. r = Some e \<longrightarrow> dispatched log2 < dispatched log0 + length rng)
    \<and> (list_all (\<lambda>item. \<not> is_rule item) out0 \<longrightarrow> list_all (\<lambda>item. \<not> is_rule item) out2)"
  using assms(2)
proof (induction rng arbitrary: log0 s out0)
  case Nil
  then show ?case by auto
next
  case (Cons i rng)
  let ?step = "''step_'' @ py_str (i + 1)"
  let ?ok = "list_all (\<lambda>item. \<not> is_rule item)"
  let ?run = "run_steps console_print model_name completion (i # rng) log0 s out0"
  obtain r1 out1 where p1: "print_all console_print out0
      [Text (''Planning '' @ ?step @ ''... ''), Text model_name] = (r1, out1)"
    by (cases "print_all console_print out0 [Text (''Planning '' @ ?step @ ''... ''), Text model_name]")
  have ok1: "?ok out0 \<Longrightarrow> ?ok out1"
    using print_all_no_rule[OF p1] by simp
  show ?case
  proof (cases r1)
    case (Some e)
    with p1 have "?run = (Some e, log0, s, out1)"
      by (simp add: Let_def del: print_all.simps)
    with Cons.prems ok1 show ?thesis by auto
  next
    case None
    show ?thesis
    proof (cases "completion log0")
      case (Inl e)
      with p1 None have "?run = (Some e, log0, s, out1)"
        by (simp add: Let_def del: print_all.simps)
      with Cons.prems ok1 show ?thesis by auto
    next
      case (Inr job_dict)
      show ?thesis
      proof (cases "model_validate job_dict")
        case (Inl e)
        with p1 None Inr have "?run = (Some e, log0, s, out1)"
          by (simp add: Let_def del: print_all.simps)
        with Cons.prems ok1 show ?thesis by auto
      next
        case valid: (Inr job)
        then have job: "job = job_dict" by (rule model_validate_Inr)
        with assms(1) Inr have nr: "\<not> is_report (ns_function job)" by blast
        show ?thesis
        proof (cases "ns_plan_remaining_steps_brief job")
          case Nil
          with p1 None Inr valid nr have "?run = (Some IndexError, log0, s, out1)"
            by (simp add: Let_def del: print_all.simps)
          with Cons.prems ok1 show ?thesis by auto
        next
          case plan: (Cons plan plans)
          obtain r2 out2' where p2: "print_all console_print out1 [PlanItem plan (ns_function job)] = (r2, out2')"
            by (cases "print_all console_print out1 [PlanItem plan (ns_function job)]")
          have ok2: "?ok out1 \<Longrightarrow> ?ok out2'"
            using print_all_no_rule[OF p2] by simp
          let ?log1 = "log0 @ [Assistant ?step (tool (ns_function job)) (ns_function job)]"
          have d1: "dispatched ?log1 = dispatched log0" by (simp add: dispatched_def)
          obtain out s1 where d: "dispatch s (ns_function job) = (out, s1)"
            by (cases "dispatch s (ns_function job)")
          show ?thesis
          proof (cases r2)
            case (Some e)
            with p1 None Inr valid nr plan p2 have "?run = (Some e, log0, s, out2')"
              by (simp add: Let_def del: print_all.simps)
            with Cons.prems ok1 ok2 show ?thesis by auto
          next
            case printed: None
            show ?thesis
            proof (cases out)
              case (Raised e)
              with p1 None Inr valid nr plan p2 printed d have "?run = (Some e, ?log1, s1, out2')"
                by (simp add: Let_def del: print_all.simps)
              with Cons.prems ok1 ok2 d1 show ?thesis by auto
            next
              case (Returned result)
              let ?log2 = "?log1 @ [Tool result ?step]"
              have d2: "dispatched ?log2 = Suc (dispatched log0)" by (simp add: dispatched_def)
              from p1 None Inr valid nr plan p2 printed d Returned
              have "?run = run_steps console_print model_name completion rng ?log2 s1 out2'"
                by (simp add: Let_def del: print_all.simps)
              with Cons.prems
              have "run_steps console_print model_name completion rng ?log2 s1 out2' = (r, log2, s2, out2)"
                by simp
              from Cons.IH[OF this] d2 ok1 ok2 show ?thesis by simp
            qed
          qed
        qed
      qed
    qed
  qed
qed

lemma run_steps_returns:
  assumes "\<forall>item. console_print item = None"
    and "\<forall>log'. \<exists>job. completion log' = Inr job \<and> model_validate job = Inr job
            \<and> \<not> is_report (ns_function job)
            \<and> (\<forall>email skus d. ns_function job = IssueInvoice email skus d
                  \<longrightarrow> float_of_int d \<noteq> Inl OverflowError)"
    and "prices_convert (db_products s)"
  shows "fst (run_steps console_print model_name completion rng log0 s out0) = None"
  using assms(3)
proof (induction rng arbitrary: log0 s out0)
  case Nil
  then show ?case by simp
next
  case (Cons i rng)
  from assms(2) obtain job where j: "completion log0 = Inr job" "model_validate job = Inr job"
    "\<not> is_report (ns_function job)"
    "\<forall>email skus d. ns_function job = IssueInvoice email skus d \<longrightarrow> float_of_int d \<noteq> Inl OverflowError"
    by blast
  from j(2) obtain plan plans where plan: "ns_plan_remaining_steps_brief job = plan # plans"
    by (cases "ns_plan_remaining_steps_brief job") (auto simp: model_validate_def split: if_splits)
  from dispatch_returns[OF Cons.prems j(4)] obtain result s1 where
    d: "dispatch s (ns_function job) = (Returned result, s1)" "db_products s1 = db_products s"
    by blast
  with Cons.prems have "prices_convert (db_products s1)" by simp
  from Cons.IH[OF this] j plan d(1) assms(1) show ?case
    by (simp add: Let_def)
qed

text \<open>
  A step whose decision is a \<open>ReportTaskCompletion\<close> prints the summary, with its
  rules, and ends the loop: this is how a completed run differs from the others.
\<close>

lemma run_steps_report:
  assumes "\<forall>item. console_print item = None"
    and "completion log0 = Inr job" and "model_validate job = Inr job"
    and "is_report (ns_function job)"
  shows "run_steps console_print model_name completion (i # rng) log0 s out0
    = (None, log0, s,
       out0 @ [Text (''Planning step_'' @ py_str (i + 1) @ ''... ''), Text model_name]
         @ summary_items (ns_function job))"
  using assms by (simp add: Let_def print_all_None del: print_all.simps)

text \<open>
  C6, as the code has it. With a decision oracle that never answers
  \<open>ReportTaskCompletion\<close>, the run of a task dispatches at most 20 steps and prints no
  summary: either its loop ends with the range of 20 steps exhausted, after exactly 20
  dispatches, or an exception ends the program earlier, after fewer than 20. The
  program keeps no state for the exhausted budget: the loop ends and the next task
  starts. No exception is raised when the console prints every item, every decision
  validates with a \<open>discount_percent\<close> that converts to a float, and the prices of the
  catalog convert.
\<close>

theorem no_report_within_budget:
  assumes "\<forall>log' job. completion log' = Inr job \<longrightarrow> \<not> is_report (ns_function job)"
  shows "(case run_task console_print model_name completion system_prompt s [] task of
            (None, log', s', out) \<Rightarrow>
               dispatched log' = 20 \<and> list_all (\<lambda>item. \<not> is_rule item) out
          | (Some e, log', s', out) \<Rightarrow>
               dispatched log' < 20 \<and> list_all (\<lambda>item. \<not> is_rule item) out)
     \<and> ((\<forall>item. console_print item = None)
          \<and> (\<forall>log'. \<exists>job. completion log' = Inr job \<and> model_validate job = Inr job
                 \<and> (\<forall>email skus d. ns_function job = IssueInvoice email skus d
                       \<longrightarrow> float_of_int d \<noteq> Inl OverflowError))
          \<and> prices_convert (db_products s)
         \<longrightarrow> fst (run_task console_print model_name completion system_prompt s [] task) = None)"
proof -
  let ?items = "[Text [CHR 0x0A, CHR 0x0A], PanelItem task ''Launch agent with task'']"
  let ?ok = "list_all (\<lambda>item. \<not> is_rule item)"
  obtain r1 out1 where p: "print_all console_print [] ?items = (r1, out1)"
    by (cases "print_all console_print [] ?items")
  have ok1: "?ok out1" using print_all_no_rule[OF p] by simp
  have first: "(case run_task console_print model_name completion system_prompt s [] task of
            (None, log', s', out) \<Rightarrow> dispatched log' = 20 \<and> ?ok out
          | (Some e, log', s', out) \<Rightarrow> dispatched log' < 20 \<and> ?ok out)"
  proof (cases r1)
    case (Some e)
    with p ok1 show ?thesis
      by (simp add: run_task_def dispatched_def del: print_all.simps)
  next
    case None
    obtain r log2 s2 out2 where
      run: "run_steps console_print model_name completion [0..<20]
              [System system_prompt, User task] s out1 = (r, log2, s2, out2)"
      by (cases "run_steps console_print model_name completion [0..<20]
              [System system_prompt, User task] s out1") auto
    from run_steps_no_report[OF assms run] ok1
    have "(r = None \<longrightarrow> dispatched log2 = 20) \<and> (\<forall>e. r = Some e \<longrightarrow> dispatched log2 < 20) \<and> ?ok out2"
      by (simp add: dispatched_def)
    with p None run show ?thesis
      by (cases r) (simp_all add: run_task_def del: print_all.simps)
  qed
  have "fst (run_task console_print model_name completion system_prompt s [] task) = None"
    if c: "\<forall>item. console_print item = None"
      and o: "\<forall>log'. \<exists>job. completion log' = Inr job \<and> model_validate job = Inr job
                 \<and> (\<forall>email skus d. ns_function job = IssueInvoice email skus d
                       \<longrightarrow> float_of_int d \<noteq> Inl OverflowError)"
      and pc: "prices_convert (db_products s)"
  proof -
    have o': "\<forall>log'. \<exists>job. completion log' = Inr job \<and> model_validate job = Inr job
            \<and> \<not> is_report (ns_function job)
            \<and> (\<forall>email skus d. ns_function job = IssueInvoice email skus d
                  \<longrightarrow> float_of_int d \<noteq> Inl OverflowError)"
    proof
      fix log'
      from o obtain job where "completion log' = Inr job" "model_validate job = Inr job"
        "\<forall>email skus d. ns_function job = IssueInvoice email skus d
                       \<longrightarrow> float_of_int d \<noteq> Inl OverflowError" by blast
      with assms show "\<exists>job. completion log' = Inr job \<and> model_validate job = Inr job
            \<and> \<not> is_report (ns_function job)
            \<and> (\<forall>email skus d. ns_function job = IssueInvoice email skus d
                  \<longrightarrow> float_of_int d \<noteq> Inl OverflowError)"
        by blast
    qed
    from c have "print_all console_print [] ?items = (None, ?items)"
      using print_all_None[of ?items console_print "[]"] by simp
    with run_steps_returns[OF c o' pc] show ?thesis
      by (simp add: run_task_def del: print_all.simps)
  qed
  with first show ?thesis by blast
qed

theorem no_report_within_budget_witness:
  "fst (run_task plain_console ''gpt-4o'' always_issues ''prompt'' DB [] ''task'') = None
   \<and> dispatched (fst (snd (run_task plain_console ''gpt-4o'' always_issues ''prompt'' DB [] ''task''))) = 20
   \<and> list_all (\<lambda>item. \<not> is_rule item)
        (snd (snd (snd (run_task plain_console ''gpt-4o'' always_issues ''prompt'' DB [] ''task''))))"
proof -
  have h: "\<forall>log' job. always_issues log' = Inr job \<longrightarrow> \<not> is_report (ns_function job)"
    by (auto simp: always_issues_def candidate_def)
  have c: "\<forall>item. plain_console item = None"
    by (simp add: plain_console_def)
  have v: "\<forall>log'. \<exists>job. always_issues log' = Inr job \<and> model_validate job = Inr job
                 \<and> (\<forall>email skus d. ns_function job = IssueInvoice email skus d
                       \<longrightarrow> float_of_int d \<noteq> Inl OverflowError)"
    by (simp add: always_issues_def model_validate_def candidate_def float_of_int_exact)
  have pc: "prices_convert (db_products DB)"
    by (simp add: prices_convert_def DB_def float_of_int_exact)
  note b = no_report_within_budget[OF h, of plain_console "''gpt-4o''" "''prompt''" DB "''task''"]
  from b c v pc have e: "fst (run_task plain_console ''gpt-4o'' always_issues ''prompt'' DB [] ''task'') = None"
    by blast
  obtain r log2 s2 out2 where
    r: "run_task plain_console ''gpt-4o'' always_issues ''prompt'' DB [] ''task'' = (r, log2, s2, out2)"
    by (cases "run_task plain_console ''gpt-4o'' always_issues ''prompt'' DB [] ''task''") auto
  from b[THEN conjunct1] e show ?thesis unfolding r by simp
qed

text \<open>
  The claim as stated lets every oracle that never answers \<open>ReportTaskCompletion\<close> end
  in the exhausted budget. An oracle whose first answer fails validation never answers
  \<open>ReportTaskCompletion\<close>, and its run ends at the first step with \<open>ValidationError\<close>,
  nothing dispatched.
\<close>

theorem invalid_decision_ends_run:
  "\<not> is_report (ns_function (candidate 51))
   \<and> always_invalid [System ''prompt'', User ''task''] = Inr (candidate 51)
   \<and> run_task plain_console ''gpt-4o'' always_invalid ''prompt'' DB [] ''task''
       = (Some ValidationError, [System ''prompt'', User ''task''], DB,
          [Text [CHR 0x0A, CHR 0x0A], PanelItem ''task'' ''Launch agent with task'',
           Text ''Planning step_1... '', Text ''gpt-4o''])
   \<and> dispatched [System ''prompt'', User ''task''] = 0"
proof -
  have u: "[0..<20] = 0 # [1..<20]" by (simp add: upt_conv_Cons del: upt_Suc)
  have v: "model_validate (candidate 51) = Inl ValidationError"
    by (simp add: model_validate_def candidate_def)
  have n: "\<not> is_report (ns_function (candidate 51))"
    by (simp add: candidate_def)
  show ?thesis
    unfolding run_task_def u
    by (simp add: n v always_invalid_def plain_console_def py_str_digits dispatched_def Let_def)
qed

section \<open>The schema transform\<close>

lemma ensure_dict:
  "ensure_no_additional_properties (JDict d) =
     JDict (map (\<lambda>e. (fst e, visit (snd e)))
       (if map_of d ''type'' = Some (JStr ''object'') \<and> map_of d ''additionalProperties'' = None
        then AList.update ''additionalProperties'' (JBool False) d else d))"
  by (simp add: visit_def Let_def case_prod_unfold del: map_of_eq_None_iff)

lemma update_absent: "map_of al k = None \<Longrightarrow> AList.update k v al = al @ [(k, v)]"
  by (rule update_fresh) (simp add: map_of_eq_None_iff)

lemma inject_scalar: "\<not> is_dict x \<Longrightarrow> \<not> is_list x \<Longrightarrow> inject_everywhere x = x"
  by (cases x) simp_all

lemma visit_inject: "lists_hold_no_lists j \<Longrightarrow> visit j = inject_everywhere j"
proof (induction j)
  case (JList xs)
  have "(if is_dict x then ensure_no_additional_properties x else x) = inject_everywhere x"
    if "x \<in> set xs" for x
  proof -
    from that JList.prems have nl: "\<not> is_list x" and h: "lists_hold_no_lists x"
      by (auto simp: list_all_iff)
    from JList.IH[OF that h] have "visit x = inject_everywhere x" .
    with nl show ?thesis by (auto simp: visit_def inject_scalar)
  qed
  then show ?case by (simp add: visit_def)
next
  case (JDict d)
  have v: "visit (snd e) = inject_everywhere (snd e)" if "e \<in> set d" for e
  proof -
    from that JDict.prems have "lists_hold_no_lists (snd e)" by (auto simp: list_all_iff)
    moreover have "snd e \<in> Basic_BNFs.snds e" by (cases e) simp
    ultimately show ?thesis using JDict.IH[OF that] by blast
  qed
  have b: "visit (JBool False) = JBool False" by (simp add: visit_def)
  have "visit (JDict d) = ensure_no_additional_properties (JDict d)" by (simp add: visit_def)
  also have "\<dots> = inject_everywhere (JDict d)"
    unfolding ensure_dict using v
    by (auto simp: update_absent b simp del: map_of_eq_None_iff)
  finally show ?case .
qed (simp_all add: visit_def)

lemma inject_reached_item:
  "inject_reached True x = (if is_dict x then inject_reached False x else x)"
  by (cases x) simp_all

lemma visit_reached: "visit j = inject_reached False j"
proof (induction j)
  case (JList xs)
  have "(if is_dict x then ensure_no_additional_properties x else x) = inject_reached True x"
    if "x \<in> set xs" for x
    using JList.IH[OF that] by (auto simp: visit_def inject_reached_item)
  then show ?case by (simp add: visit_def)
next
  case (JDict d)
  have v: "visit (snd e) = inject_reached False (snd e)" if "e \<in> set d" for e
  proof -
    have "snd e \<in> Basic_BNFs.snds e" by (cases e) simp
    then show ?thesis using JDict.IH[OF that] by blast
  qed
  have b: "visit (JBool False) = JBool False" by (simp add: visit_def)
  have "visit (JDict d) = ensure_no_additional_properties (JDict d)" by (simp add: visit_def)
  also have "\<dots> = inject_reached False (JDict d)"
    unfolding ensure_dict using v
    by (auto simp: update_absent b simp del: map_of_eq_None_iff)
  finally show ?case .
qed (simp_all add: visit_def)

text \<open>
  C9, as the code has it. On every schema the function is the transform that sets
  \<open>additionalProperties\<close> to false on every dictionary of type \<open>object\<close> that lacks the
  key and is reached through the values of dictionaries and through the lists that are
  such values, and changes nothing else: a list that is an item of a list is left as
  it is. On a schema in which no list is an item of a list this is the transform of
  the specification, which reaches every dictionary.
\<close>

theorem ensure_no_additional_properties_injects:
  "ensure_no_additional_properties (JDict schema_dict) = inject_reached False (JDict schema_dict)
   \<and> (lists_hold_no_lists (JDict schema_dict) \<longrightarrow>
        ensure_no_additional_properties (JDict schema_dict) = inject_everywhere (JDict schema_dict))"
  using visit_reached[of "JDict schema_dict"] visit_inject[of "JDict schema_dict"]
  by (simp add: visit_def)

theorem ensure_no_additional_properties_injects_witness:
  "ensure_no_additional_properties matrix_default_schema =
     JDict [(''default'', JList [JList [JInt 1, JInt 2]]),
            (''items'', JDict [(''type'', JStr ''object''), (''additionalProperties'', JBool False)]),
            (''type'', JStr ''object''),
            (''additionalProperties'', JBool False)]
   \<and> ensure_no_additional_properties next_step_schema =
     JDict
       [(''$defs'', JDict
          [(''IssueInvoice'', JDict
              [(''properties'', JDict
                  [(''tool'', JDict [(''const'', JStr ''issue_invoice''), (''type'', JStr ''string'')]),
                   (''skus'', JDict [(''items'', JDict [(''type'', JStr ''string'')]),
                                     (''type'', JStr ''array'')]),
                   (''discount_percent'', JDict [(''maximum'', JInt 50), (''type'', JStr ''integer'')])]),
               (''required'', JList [JStr ''tool'', JStr ''skus'', JStr ''discount_percent'']),
               (''type'', JStr ''object''),
               (''additionalProperties'', JBool False)]),
           (''Open'', JDict [(''additionalProperties'', JBool True), (''type'', JStr ''object'')])]),
        (''properties'', JDict
          [(''function'', JDict
              [(''anyOf'', JList [JDict [(''$ref'', JStr ''#/$defs/IssueInvoice'')],
                                  JDict [(''type'', JStr ''object''),
                                         (''additionalProperties'', JBool False)]])])]),
        (''type'', JStr ''object''),
        (''additionalProperties'', JBool False)]"
proof -
  have h: "lists_hold_no_lists next_step_schema"
    by (simp add: next_step_schema_def)
  have "ensure_no_additional_properties next_step_schema = inject_everywhere next_step_schema"
    unfolding next_step_schema_def
    using ensure_no_additional_properties_injects[THEN conjunct2] h
    by (simp add: next_step_schema_def)
  moreover have "ensure_no_additional_properties matrix_default_schema
      = inject_reached False matrix_default_schema"
    unfolding matrix_default_schema_def
    by (rule ensure_no_additional_properties_injects[THEN conjunct1])
  ultimately show ?thesis
    by (simp add: next_step_schema_def matrix_default_schema_def)
qed

text \<open>
  The claim as stated covers a dictionary at any depth, also inside lists. A dictionary
  of type \<open>object\<close> in a list that is itself an item of a list is not visited: the
  function returns this schema as it is, and the transform of the specification sets
  the key there.
\<close>

theorem nested_list_not_visited:
  "ensure_no_additional_properties nested_list_schema = nested_list_schema
   \<and> inject_everywhere nested_list_schema =
       JDict [(''type'', JStr ''object''),
              (''additionalProperties'', JBool False),
              (''examples'', JList [JList [JDict [(''type'', JStr ''object''),
                                                  (''additionalProperties'', JBool False)]]])]"
  by (simp add: nested_list_schema_def)

section \<open>The shipped catalog\<close>

text \<open>
  No command changes the catalog, so every store that the program reaches has the
  catalog of \<open>DB\<close>. Its prices convert to floats, and the prices of a list of up to
  \<open>6982324988171\<close> skus add up to at most \<open>2 ^ 53\<close>.
\<close>

lemma dispatch_all_products: "db_products (snd (dispatch_all s cmds)) = db_products s"
proof (induction cmds arbitrary: s)
  case Nil
  then show ?case by simp
next
  case (Cons c cs)
  obtain out s1 where d: "dispatch s c = (out, s1)" by (cases "dispatch s c")
  from dispatch_store[OF d] have "db_products s1 = db_products s" by auto
  with Cons.IH[of s1] d show ?case by (cases "dispatch_all s1 cs") simp
qed

lemma shipped_prices_convert: "prices_convert (db_products DB)"
  by (simp add: prices_convert_def DB_def float_of_int_exact)

lemma shipped_unit_price: "0 \<le> unit_price (db_products DB) sku \<and> unit_price (db_products DB) sku \<le> 1290"
  by (simp add: unit_price_def DB_def)

lemma shipped_sum_bound:
  "(\<Sum>sku\<leftarrow>skus. unit_price (db_products DB) sku) \<le> 1290 * int (length skus)"
  using shipped_unit_price by (induction skus) (auto simp: algebra_simps intro: add_mono)

lemma shipped_sum_exact:
  assumes "length skus \<le> 6982324988171"
  shows "(\<Sum>sku\<leftarrow>skus. unit_price (db_products DB) sku) \<le> 2 ^ 53"
proof -
  have "1290 * int (length skus) \<le> 1290 * 6982324988171" using assms by simp
  also have "\<dots> \<le> (2 ^ 53 :: int)" by simp
  finally show ?thesis using shipped_sum_bound[of skus] by linarith
qed

end
